theory Spec2Isabelle
  imports Main
begin

section \<open>Data model\<close>

text \<open>
  The multiplexer of \<^verbatim>\<open>socket.ts\<close>, \<^verbatim>\<open>client.ts\<close> and \<^verbatim>\<open>server.ts\<close> works on
  JavaScript objects that reference each other: physical WebSockets, logical
  sockets (\<^verbatim>\<open>AbstractMultiplexSocket\<close>), and multiplexers. Objects live in stores
  (lists; an object's identity is its index) and every function takes the world
  and returns the world it leaves behind.
\<close>

datatype ready_state = CONNECTING | OPEN | CLOSING | CLOSED

text \<open>The four variants of \<^verbatim>\<open>MultiplexMessage\<close>, as written to or read from the wire.\<close>

datatype message =
    Connect string string  \<comment> \<open>ref, backend\<close>
  | Open string string  \<comment> \<open>channel, ref\<close>
  | Close string "int option" "string option"  \<comment> \<open>channel, code, reason\<close>
  | Data string string  \<comment> \<open>channel, data\<close>

text \<open>What \<^verbatim>\<open>JSON.parse(e.data)\<close> makes of an inbound transport message.\<close>

datatype raw = Unparseable | Parsed message

datatype event =
    OpenEvent
  | MessageEvent string
  | CloseEvent "int option" "string option"
  | ErrorEvent

datatype js_error = Error | TypeError

text \<open>
  The \<^verbatim>\<open>close\<close> property of a logical socket is reassigned at run time. It is
  one of: the method of the base class, the arrow function installed by
  \<^verbatim>\<open>MultiplexerClient.connect\<close> (capturing the multiplexer and \<^verbatim>\<open>ref\<close>), or the
  closure installed by \<^verbatim>\<open>Multiplexer.addChannel\<close> (capturing the multiplexer and
  its own \<^verbatim>\<open>closed\<close> flag).
\<close>

datatype close_impl =
    BaseClose
  | TempClose nat string
  | ChannelClose nat bool

text \<open>Who assigned the \<^verbatim>\<open>on...\<close> handlers of a physical socket.\<close>

datatype handlers = NoHandlers | ClientHandlers nat | ServerHandlers nat

datatype protocols = PString string | PArray "string list"

record wsocket =
  readyState :: ready_state
  sent :: "message list"  \<comment> \<open>the frames handed to \<^verbatim>\<open>WebSocket.send\<close>, oldest first\<close>
  ws_url :: string
  ws_protocols :: "protocols option"
  ws_handlers :: handlers

record msock =
  s_socket :: nat
  s_channel :: "string option"  \<comment> \<open>\<^verbatim>\<open>channel!: string\<close>, undefined until assigned\<close>
  s_url :: string
  s_close :: close_impl
  s_events :: "event list"  \<comment> \<open>the events delivered to the application, oldest first\<close>

text \<open>
  What reading \<^verbatim>\<open>obj[k]\<close> gives: \<^verbatim>\<open>undefined\<close>, the value of an own property, a
  member of \<^verbatim>\<open>Object.prototype\<close> found by inheritance (a function, or for
  "__proto__" the object \<^verbatim>\<open>Object.prototype\<close> itself; all truthy), or a value
  this model does not describe.
\<close>

datatype 'a lookup = Undefined | Own 'a | Inherited string | Outside

text \<open>A backend of the application: a function, or an object with \<^verbatim>\<open>emit\<close>.\<close>

datatype backend = BackendFunction nat | BackendEmitter nat

text \<open>
  \<^verbatim>\<open>Multiplexer.channels\<close> is a plain object. Its own properties are an
  association list in insertion order; a stored value can be \<^verbatim>\<open>undefined\<close>
  (\<open>None\<close>). Its prototype is \<^verbatim>\<open>Object.prototype\<close> (\<open>None\<close>) until an assignment to
  the key "__proto__" makes a logical socket its prototype. The fields of the
  subclasses \<^verbatim>\<open>MultiplexerClient\<close> (\<^verbatim>\<open>socket\<close>, \<^verbatim>\<open>pending\<close>, \<^verbatim>\<open>url\<close>) and
  \<^verbatim>\<open>MultiplexerServer\<close> (\<^verbatim>\<open>backends\<close>) share one record. Each element of
  \<^verbatim>\<open>pending\<close> is the thunk \<^verbatim>\<open>() => this.socket.send(json)\<close>, kept as its frame.
\<close>

record muxer =
  channels :: "(string \<times> nat option) list"
  proto :: "nat option"
  m_socket :: nat
  pending :: "message list option"
  m_url :: string
  backends :: "(string \<times> backend) list"

record world =
  sockets :: "wsocket list"
  socks :: "msock list"
  muxers :: "muxer list"
  registry :: "(string \<times> nat) list"  \<comment> \<open>the module-level \<^verbatim>\<open>registry\<close> of client.ts\<close>
  console :: "string list"
  calls :: "(backend lookup \<times> nat \<times> msock) list"
    \<comment> \<open>backend invocations: what was called, the socket it got, and that socket as it was then\<close>

text \<open>
  A function returns, throws, or does something this model does not describe
  (\<open>Unmodelled\<close>, with the world as it was at that point): it writes to a built-in
  object, or reads a property through a logical socket that has become the
  prototype of \<^verbatim>\<open>channels\<close>.
\<close>

datatype outcome = Returned world | Thrown js_error world | Unmodelled world

fun state_of :: "outcome \<Rightarrow> world" where
  "state_of (Returned w) = w"
| "state_of (Thrown e w) = w"
| "state_of (Unmodelled w) = w"

fun returned :: "outcome \<Rightarrow> bool" where
  "returned (Returned w) = True"
| "returned (Thrown e w) = False"
| "returned (Unmodelled w) = False"

section \<open>JavaScript objects used as dictionaries\<close>

definition object_prototype :: "string list" where
  "object_prototype =
     [''constructor'', ''__defineGetter__'', ''__defineSetter__'', ''hasOwnProperty'',
      ''__lookupGetter__'', ''__lookupSetter__'', ''isPrototypeOf'', ''propertyIsEnumerable'',
      ''toString'', ''valueOf'', ''__proto__'', ''toLocaleString'']"

text \<open>Reading a key of an object whose prototype is \<^verbatim>\<open>Object.prototype\<close>.\<close>

definition obj_get :: "(string \<times> 'v) list \<Rightarrow> string \<Rightarrow> 'v lookup" where
  "obj_get obj k =
     (case map_of obj k of
        Some v \<Rightarrow> Own v
      | None \<Rightarrow> if k \<in> set object_prototype then Inherited k else Undefined)"

text \<open>
  The accessor properties of \<^verbatim>\<open>AbstractMultiplexSocket\<close>; they have no setter, so
  assigning one of these keys on an object that inherits them throws.
\<close>

definition getters :: "string list" where
  "getters = [''binaryType'', ''bufferedAmount'', ''extensions'', ''readyState'', ''protocol'']"

text \<open>
  \<^verbatim>\<open>this.channels[k]\<close>. An own property wins. "__proto__" is the accessor of
  \<^verbatim>\<open>Object.prototype\<close> and gives the prototype. Any other key is looked up in the
  prototype: in \<^verbatim>\<open>Object.prototype\<close>, or in a logical socket, which is not
  described here.
\<close>

definition channels_get :: "muxer \<Rightarrow> string \<Rightarrow> nat lookup" where
  "channels_get mx k =
     (case map_of (channels mx) k of
        Some v \<Rightarrow> (case v of None \<Rightarrow> Undefined | Some sid \<Rightarrow> Own sid)
      | None \<Rightarrow>
          (case proto mx of
             None \<Rightarrow> if k \<in> set object_prototype then Inherited k else Undefined
           | Some s \<Rightarrow> if k = ''__proto__'' then Own s else Outside))"

fun obj_set :: "('k \<times> 'v) list \<Rightarrow> 'k \<Rightarrow> 'v \<Rightarrow> ('k \<times> 'v) list" where
  "obj_set [] k v = [(k, v)]"
| "obj_set ((k', v') # obj) k v =
     (if k' = k then (k, v) # obj else (k', v') # obj_set obj k v)"

definition obj_delete :: "('k \<times> 'v) list \<Rightarrow> 'k \<Rightarrow> ('k \<times> 'v) list" where
  "obj_delete obj k = filter (\<lambda>kv. fst kv \<noteq> k) obj"

text \<open>
  \<^verbatim>\<open>this.channels[k] = v\<close>; \<open>None\<close> is the TypeError of strict code. An own
  property is overwritten. "__proto__" is not stored: its setter replaces the
  prototype when \<open>v\<close> is an object and ignores \<^verbatim>\<open>undefined\<close>. A key that the
  prototype has as a getter without setter cannot be assigned. Any other key
  becomes a new own property.
\<close>

definition channels_set :: "muxer \<Rightarrow> string \<Rightarrow> nat option \<Rightarrow> muxer option" where
  "channels_set mx k v =
     (if map_of (channels mx) k \<noteq> None then Some (mx\<lparr>channels := obj_set (channels mx) k v\<rparr>)
      else if k = ''__proto__'' then
        Some (case v of None \<Rightarrow> mx | Some s \<Rightarrow> mx\<lparr>proto := Some s\<rparr>)
      else if proto mx \<noteq> None \<and> k \<in> set getters then None
      else Some (mx\<lparr>channels := obj_set (channels mx) k v\<rparr>))"

text \<open>
  \<^verbatim>\<open>Object.values\<close> lists the values of keys that are array indices first, in
  ascending numeric order, then those of all other keys in insertion order.
\<close>

definition is_digit :: "char \<Rightarrow> bool" where
  "is_digit c = (c \<in> set ''0123456789'')"

definition digit_val :: "char \<Rightarrow> int" where
  "digit_val c = of_char c - 48"

definition index_val :: "string \<Rightarrow> int" where
  "index_val k = foldl (\<lambda>n c. 10 * n + digit_val c) 0 k"

definition is_array_index :: "string \<Rightarrow> bool" where
  "is_array_index k =
     (k \<noteq> [] \<and> list_all is_digit k \<and> (k = ''0'' \<or> hd k \<noteq> CHR ''0'')
      \<and> index_val k < 4294967295)"

definition obj_values :: "(string \<times> 'v) list \<Rightarrow> 'v list" where
  "obj_values obj =
     map snd (sort_key (\<lambda>kv. index_val (fst kv)) (filter (\<lambda>kv. is_array_index (fst kv)) obj)
              @ filter (\<lambda>kv. \<not> is_array_index (fst kv)) obj)"

section \<open>External collaborators\<close>

text \<open>
  The transport, the console and the application's listeners are outside the
  library. \<^verbatim>\<open>WebSocket.send\<close> is recorded as the frame handed to the transport,
  \<^verbatim>\<open>console.error\<close> as a line of the log, and the delivery of an event
  (\<^verbatim>\<open>dispatchEvent\<close> followed by the \<^verbatim>\<open>on...\<close> handler, the body of
  \<^verbatim>\<open>Multiplexer.emit\<close>) as an entry of the socket's event list.
\<close>

definition socket_send :: "nat \<Rightarrow> message \<Rightarrow> world \<Rightarrow> world" where
  "socket_send k f w =
     w\<lparr>sockets := (sockets w)[k := (sockets w ! k)\<lparr>sent := sent (sockets w ! k) @ [f]\<rparr>]\<rparr>"

definition console_error :: "string \<Rightarrow> world \<Rightarrow> world" where
  "console_error line w = w\<lparr>console := console w @ [line]\<rparr>"

definition emit :: "nat \<Rightarrow> event \<Rightarrow> world \<Rightarrow> world" where
  "emit sid ev w =
     w\<lparr>socks := (socks w)[sid := (socks w ! sid)\<lparr>s_events := s_events (socks w ! sid) @ [ev]\<rparr>]\<rparr>"

section \<open>socket.ts: AbstractMultiplexSocket and Multiplexer\<close>

text \<open>
  \<^verbatim>\<open>Multiplexer.randomId\<close>: \<^verbatim>\<open>(0.00001 + Math.random()).toString(36).slice(2, 7)\<close>.
  The random number and its conversion are outside the library: the input is
  the list of base-36 digits that follow the point in the converted number, and
  the result is the first five of them as characters.
\<close>

definition base36 :: string where
  "base36 = ''0123456789abcdefghijklmnopqrstuvwxyz''"

definition randomId :: "nat list \<Rightarrow> string" where
  "randomId ds = map (\<lambda>d. base36 ! (d mod 36)) (take 5 ds)"

definition set_channels :: "nat \<Rightarrow> (string \<times> nat option) list \<Rightarrow> world \<Rightarrow> world" where
  "set_channels m obj w = w\<lparr>muxers := (muxers w)[m := (muxers w ! m)\<lparr>channels := obj\<rparr>]\<rparr>"

text \<open>A key of a plain object is a string; \<^verbatim>\<open>undefined\<close> becomes the key "undefined".\<close>

definition key_of :: "string option \<Rightarrow> string" where
  "key_of c = (case c of None \<Rightarrow> ''undefined'' | Some k \<Rightarrow> k)"

definition truthy :: "string option \<Rightarrow> bool" where
  "truthy c = (case c of None \<Rightarrow> False | Some k \<Rightarrow> k \<noteq> [])"

text \<open>\<^verbatim>\<open>AbstractMultiplexSocket.send\<close>.\<close>

definition send :: "nat \<Rightarrow> string \<Rightarrow> world \<Rightarrow> world" where
  "send sid payload w =
     (if \<not> truthy (s_channel (socks w ! sid)) then console_error ''channel was closed'' w
      else socket_send (s_socket (socks w ! sid))
             (Data (key_of (s_channel (socks w ! sid))) payload) w)"

text \<open>
  \<^verbatim>\<open>sock.close(code, reason)\<close>: whichever function the property holds. The
  \<^verbatim>\<open>ChannelClose\<close> case is the closure of \<^verbatim>\<open>addChannel\<close>: test and set \<^verbatim>\<open>closed\<close>,
  send a close frame if the transport is open, emit the close event, delete
  \<^verbatim>\<open>this.channels[sock.channel]\<close>.
\<close>

definition close :: "nat \<Rightarrow> int option \<Rightarrow> string option \<Rightarrow> world \<Rightarrow> outcome" where
  "close sid code reason w =
     (case s_close (socks w ! sid) of
        BaseClose \<Rightarrow> Thrown Error w
      | TempClose m ref \<Rightarrow> Returned (set_channels m (obj_delete (channels (muxers w ! m)) ref) w)
      | ChannelClose m closed \<Rightarrow>
          if closed then Returned w
          else
            let w1 = w\<lparr>socks := (socks w)[sid := (socks w ! sid)\<lparr>s_close := ChannelClose m True\<rparr>]\<rparr>;
                sock = socks w1 ! sid;
                w2 = (if readyState (sockets w1 ! s_socket sock) = OPEN
                      then socket_send (s_socket sock) (Close (key_of (s_channel sock)) code reason) w1
                      else w1);
                w3 = emit sid (CloseEvent code reason) w2
            in Returned (set_channels m
                 (obj_delete (channels (muxers w3 ! m)) (key_of (s_channel (socks w3 ! sid)))) w3))"

text \<open>\<^verbatim>\<open>AbstractMultiplexSocket.handleMessage\<close>.\<close>

definition handleMessage :: "nat \<Rightarrow> message \<Rightarrow> world \<Rightarrow> outcome" where
  "handleMessage sid msg w =
     (case msg of
        Data c payload \<Rightarrow> Returned (emit sid (MessageEvent payload) w)
      | Close c code reason \<Rightarrow> close sid code reason w
      | _ \<Rightarrow> Returned w)"

text \<open>
  \<^verbatim>\<open>Multiplexer.addChannel\<close>. The socket argument is \<open>None\<close> when the caller
  passes \<^verbatim>\<open>undefined\<close>; the first assignment then throws a TypeError. The last
  statement is the assignment \<^verbatim>\<open>this.channels[sock.channel] = sock\<close>.
\<close>

definition addChannel :: "nat \<Rightarrow> nat option \<Rightarrow> string \<Rightarrow> world \<Rightarrow> outcome" where
  "addChannel m sock channel w =
     (case sock of
        None \<Rightarrow> Thrown TypeError w
      | Some sid \<Rightarrow>
          let w1 = w\<lparr>socks := (socks w)[sid := (socks w ! sid)
                      \<lparr>s_channel := Some channel, s_close := ChannelClose m False\<rparr>]\<rparr>
          in case channels_set (muxers w1 ! m) (key_of (s_channel (socks w1 ! sid))) (Some sid) of
               None \<Rightarrow> Thrown TypeError w1
             | Some mx \<Rightarrow> Returned (w1\<lparr>muxers := (muxers w1)[m := mx]\<rparr>))"

text \<open>The \<^verbatim>\<open>socket.onclose\<close> and \<^verbatim>\<open>socket.onerror\<close> handlers of \<^verbatim>\<open>wireDefaultEvents\<close>.\<close>

fun forEach_close :: "nat option list \<Rightarrow> int option \<Rightarrow> string option \<Rightarrow> world \<Rightarrow> outcome" where
  "forEach_close [] code reason w = Returned w"
| "forEach_close (None # rest) code reason w = Thrown TypeError w"
| "forEach_close (Some sid # rest) code reason w =
     (case close sid code reason w of
        Returned w' \<Rightarrow> forEach_close rest code reason w'
      | r \<Rightarrow> r)"

definition onclose :: "nat \<Rightarrow> int option \<Rightarrow> string option \<Rightarrow> world \<Rightarrow> outcome" where
  "onclose m code reason w = forEach_close (obj_values (channels (muxers w ! m))) code reason w"

fun forEach_error :: "nat option list \<Rightarrow> world \<Rightarrow> outcome" where
  "forEach_error [] w = Returned w"
| "forEach_error (None # rest) w = Thrown TypeError w"
| "forEach_error (Some sid # rest) w = forEach_error rest (emit sid ErrorEvent w)"

definition onerror :: "nat \<Rightarrow> world \<Rightarrow> outcome" where
  "onerror m w = forEach_error (obj_values (channels (muxers w ! m))) w"

text \<open>
  \<^verbatim>\<open>Multiplexer.handleChannelMessage\<close>. An inherited member of \<^verbatim>\<open>Object.prototype\<close>
  is truthy and has no \<^verbatim>\<open>handleMessage\<close>: calling it throws a TypeError.
\<close>

definition mchannel :: "message \<Rightarrow> string option" where
  "mchannel msg =
     (case msg of Connect r b \<Rightarrow> None | Open c r \<Rightarrow> Some c
      | Close c code reason \<Rightarrow> Some c | Data c d \<Rightarrow> Some c)"

definition handleChannelMessage :: "nat \<Rightarrow> message \<Rightarrow> world \<Rightarrow> outcome" where
  "handleChannelMessage m msg w =
     (if \<not> truthy (mchannel msg) then Returned (console_error ''expected channel message'' w)
      else case channels_get (muxers w ! m) (key_of (mchannel msg)) of
             Undefined \<Rightarrow>
               Returned (console_error (''channel not found'' @ key_of (mchannel msg)) w)
           | Own sid \<Rightarrow> handleMessage sid msg w
           | Inherited n \<Rightarrow> Thrown TypeError w
           | Outside \<Rightarrow> Unmodelled w)"

section \<open>client.ts\<close>

text \<open>
  The dictionaries \<^verbatim>\<open>registry\<close> and \<^verbatim>\<open>backends\<close> are plain objects with the
  prototype \<^verbatim>\<open>Object.prototype\<close>. A stored \<^verbatim>\<open>MultiplexerClient\<close> or backend is an
  object or a function, hence truthy, and so is an inherited member.
\<close>

fun join_comma :: "string list \<Rightarrow> string" where
  "join_comma [] = []"
| "join_comma [x] = x"
| "join_comma (x # y # ys) = x @ '','' @ join_comma (y # ys)"

text \<open>\<^verbatim>\<open>protocols?.toString() || ''\<close>.\<close>

definition protocols_string :: "protocols option \<Rightarrow> string" where
  "protocols_string p =
     (case p of None \<Rightarrow> [] | Some (PString s) \<Rightarrow> s | Some (PArray xs) \<Rightarrow> join_comma xs)"

definition pool_key :: "string \<Rightarrow> protocols option \<Rightarrow> string" where
  "pool_key url p = url @ protocols_string p"

text \<open>
  The constructor of \<^verbatim>\<open>MultiplexerClient\<close>: a fresh multiplexer with an empty
  \<^verbatim>\<open>channels\<close>, \<^verbatim>\<open>pending = []\<close>, and a fresh physical socket (\<^verbatim>\<open>new WebSocket\<close>,
  which starts in CONNECTING) carrying this client's handlers.
\<close>

definition new_MultiplexerClient :: "string \<Rightarrow> protocols option \<Rightarrow> world \<Rightarrow> nat \<times> world" where
  "new_MultiplexerClient url p w =
     (let m = length (muxers w);
          k = length (sockets w);
          u = (if url = [] then ''/'' else url)
      in (m, w\<lparr>sockets := sockets w @
                   [\<lparr>readyState = CONNECTING, sent = [], ws_url = u, ws_protocols = p,
                     ws_handlers = ClientHandlers m\<rparr>],
                muxers := muxers w @
                   [\<lparr>channels = [], proto = None, m_socket = k, pending = Some [], m_url = u,
                     backends = []\<rparr>]\<rparr>))"

text \<open>
  \<^verbatim>\<open>getMuxer\<close>. When the key names a member of \<^verbatim>\<open>Object.prototype\<close>,
  \<^verbatim>\<open>registry[id]\<close> is that member: nothing is created and it is returned.
\<close>

definition getMuxer :: "string \<Rightarrow> protocols option \<Rightarrow> world \<Rightarrow> nat lookup \<times> world" where
  "getMuxer url p w =
     (let key = pool_key url p
      in case obj_get (registry w) key of
           Own m \<Rightarrow> (Own m, w)
         | Inherited n \<Rightarrow> (Inherited n, w)
         | _ \<Rightarrow>
             let (m, w1) = new_MultiplexerClient url p w
             in (Own m, w1\<lparr>registry := obj_set (registry w1) key m\<rparr>))"

text \<open>\<^verbatim>\<open>url.substring(0, url.lastIndexOf('/'))\<close>; a negative end counts as 0.\<close>

definition lastIndexOf :: "string \<Rightarrow> char \<Rightarrow> int" where
  "lastIndexOf s c =
     (if c \<in> set s then int (length s) - 1 - int (length (takeWhile (\<lambda>x. x \<noteq> c) (rev s)))
      else - 1)"

definition substring0 :: "string \<Rightarrow> int \<Rightarrow> string" where
  "substring0 s n = take (nat n) s"

definition base_url :: "string \<Rightarrow> string" where
  "base_url url = substring0 url (lastIndexOf url CHR ''/'')"

text \<open>
  \<^verbatim>\<open>MultiplexerClient.connect\<close>; \<open>ds\<close> is the input of \<^verbatim>\<open>this.randomId()\<close>. The ref
  has at most five characters, so it is neither "__proto__" nor the name of a
  getter, and \<^verbatim>\<open>this.channels[ref] = sock\<close> writes an own property.
\<close>

definition connect :: "nat \<Rightarrow> nat \<Rightarrow> nat list \<Rightarrow> world \<Rightarrow> world" where
  "connect m sid ds w =
     (let ref = randomId ds;
          w1 = set_channels m (obj_set (channels (muxers w ! m)) ref (Some sid)) w;
          w2 = w1\<lparr>socks := (socks w1)[sid := (socks w1 ! sid)\<lparr>s_close := TempClose m ref\<rparr>]\<rparr>;
          json = Connect ref (s_url (socks w2 ! sid))
      in case pending (muxers w2 ! m) of
           None \<Rightarrow> socket_send (m_socket (muxers w2 ! m)) json w2
         | Some q \<Rightarrow> w2\<lparr>muxers := (muxers w2)[m := (muxers w2 ! m)\<lparr>pending := Some (q @ [json])\<rparr>]\<rparr>)"

text \<open>
  The constructor of the client's \<^verbatim>\<open>MultiplexSocket\<close>. The object is created by
  \<^verbatim>\<open>super()\<close> with the base \<^verbatim>\<open>close\<close>; its \<^verbatim>\<open>url\<close> and \<^verbatim>\<open>socket\<close> are assigned
  before \<^verbatim>\<open>connect\<close> runs. Returns the new socket and the world. When
  \<^verbatim>\<open>getMuxer\<close> returns an inherited member, \<^verbatim>\<open>muxer.connect\<close> is not a function:
  the constructor throws and the object it was building is lost.
\<close>

definition new_MultiplexSocket ::
    "string \<Rightarrow> protocols option \<Rightarrow> nat list \<Rightarrow> world \<Rightarrow> js_error + nat \<times> world" where
  "new_MultiplexSocket url p ds w =
     (let sid = length (socks w);
          (muxer, w1) = getMuxer (base_url url) p w
      in case muxer of
           Own m \<Rightarrow>
             let w2 = w1\<lparr>socks := socks w1 @
                   [\<lparr>s_socket = m_socket (muxers w1 ! m), s_channel = None, s_url = url,
                     s_close = BaseClose, s_events = []\<rparr>]\<rparr>
             in Inr (sid, connect m sid ds w2)
         | _ \<Rightarrow> Inl TypeError)"

text \<open>The \<^verbatim>\<open>socket.onopen\<close> handler of \<^verbatim>\<open>MultiplexerClient\<close>.\<close>

definition client_onopen :: "nat \<Rightarrow> world \<Rightarrow> world" where
  "client_onopen m w =
     (let w1 = (case pending (muxers w ! m) of
                  None \<Rightarrow> w
                | Some q \<Rightarrow> foldl (\<lambda>w' json. socket_send (m_socket (muxers w' ! m)) json w') w q)
      in w1\<lparr>muxers := (muxers w1)[m := (muxers w1 ! m)\<lparr>pending := None\<rparr>]\<rparr>)"

text \<open>
  \<^verbatim>\<open>MultiplexerClient.handleOpenMessage\<close>. When \<^verbatim>\<open>this.channels[msg.ref]\<close> is an
  inherited member of \<^verbatim>\<open>Object.prototype\<close>, the function goes on to store it in
  the registry and to write \<^verbatim>\<open>channel\<close> and \<^verbatim>\<open>close\<close> on that built-in object,
  which this model does not describe.
\<close>

definition open_with :: "nat \<Rightarrow> string \<Rightarrow> string \<Rightarrow> nat option \<Rightarrow> world \<Rightarrow> outcome" where
  "open_with m channel ref sock w =
     (case channels_set (muxers w ! m) channel sock of
        None \<Rightarrow> Thrown TypeError w
      | Some mx \<Rightarrow>
          let w1 = w\<lparr>muxers := (muxers w)[m := mx]\<rparr>;
              w2 = set_channels m (obj_delete (channels (muxers w1 ! m)) ref) w1
          in (case addChannel m sock channel w2 of
                Returned w3 \<Rightarrow>
                  (case sock of
                     None \<Rightarrow> Thrown TypeError w3
                   | Some sid \<Rightarrow> Returned (emit sid OpenEvent w3))
              | r \<Rightarrow> r))"

definition handleOpenMessage :: "nat \<Rightarrow> message \<Rightarrow> world \<Rightarrow> outcome" where
  "handleOpenMessage m msg w =
     (case msg of
        Open channel ref \<Rightarrow>
          (case channels_get (muxers w ! m) ref of
             Undefined \<Rightarrow> open_with m channel ref None w
           | Own sid \<Rightarrow> open_with m channel ref (Some sid) w
           | Inherited n \<Rightarrow> Unmodelled w
           | Outside \<Rightarrow> Unmodelled w)
      | _ \<Rightarrow> Returned (console_error ''expected open message'' w))"

definition is_open :: "message \<Rightarrow> bool" where
  "is_open msg = (case msg of Open c r \<Rightarrow> True | _ \<Rightarrow> False)"

definition is_connect :: "message \<Rightarrow> bool" where
  "is_connect msg = (case msg of Connect r b \<Rightarrow> True | _ \<Rightarrow> False)"

definition type_name :: "message \<Rightarrow> string" where
  "type_name msg =
     (case msg of Connect r b \<Rightarrow> ''connect'' | Open c r \<Rightarrow> ''open''
      | Close c code reason \<Rightarrow> ''close'' | Data c d \<Rightarrow> ''data'')"

text \<open>The \<^verbatim>\<open>catch\<close> of both \<^verbatim>\<open>onmessage\<close> handlers: log, keep what was done.\<close>

definition catch_log :: "outcome \<Rightarrow> outcome" where
  "catch_log r =
     (case r of
        Thrown e w \<Rightarrow> Returned (console_error ''Failed to parse multiplexer message:'' w)
      | _ \<Rightarrow> r)"

text \<open>The \<^verbatim>\<open>socket.onmessage\<close> handler of \<^verbatim>\<open>MultiplexerClient\<close>.\<close>

definition client_onmessage :: "nat \<Rightarrow> raw \<Rightarrow> world \<Rightarrow> outcome" where
  "client_onmessage m r w =
     (case r of
        Unparseable \<Rightarrow> Returned (console_error ''Failed to parse multiplexer message:'' w)
      | Parsed msg \<Rightarrow>
          catch_log
            (if is_open msg then handleOpenMessage m msg w
             else if truthy (mchannel msg) then handleChannelMessage m msg w
             else Returned (console_error (''unimplemented MultiplexMessage.type '' @ type_name msg) w)))"

section \<open>server.ts\<close>

text \<open>\<^verbatim>\<open>s.split('/')\<close>.\<close>

fun split_slash :: "string \<Rightarrow> string list" where
  "split_slash [] = [[]]"
| "split_slash (c # cs) =
     (if c = CHR ''/'' then [] # split_slash cs
      else case split_slash cs of [] \<Rightarrow> [[c]] | p # ps \<Rightarrow> (c # p) # ps)"

text \<open>\<^verbatim>\<open>msg.backend.split('/').filter(p => p).pop()\<close>: \<open>None\<close> is \<^verbatim>\<open>undefined\<close>.\<close>

definition backend_id :: "string \<Rightarrow> string option" where
  "backend_id b =
     (let ps = filter (\<lambda>p. p \<noteq> []) (split_slash b)
      in if ps = [] then None else Some (last ps))"

text \<open>\<^verbatim>\<open>MultiplexerServer.getBackend\<close>, on the \<^verbatim>\<open>backend\<close> field of a connect message.\<close>

definition getBackend :: "nat \<Rightarrow> string \<Rightarrow> world \<Rightarrow> backend lookup" where
  "getBackend m b w =
     (case backend_id b of
        None \<Rightarrow> Undefined
      | Some name \<Rightarrow> if name = [] then Undefined else obj_get (backends (muxers w ! m)) name)"

text \<open>
  What \<^verbatim>\<open>typeof backend\<close> and the call make of a backend. The application's
  backends are called and taken to return. Of the inherited members,
  "__proto__" is an object without \<^verbatim>\<open>emit\<close>; the others are functions, called
  with \<^verbatim>\<open>this\<close> undefined: \<^verbatim>\<open>Object\<close> ("constructor") and "toString" return, the
  rest throw a TypeError.
\<close>

definition is_called :: "backend lookup \<Rightarrow> bool" where
  "is_called b = (case b of Own be \<Rightarrow> True | Inherited n \<Rightarrow> n \<noteq> ''__proto__'' | _ \<Rightarrow> False)"

definition call_returns :: "backend lookup \<Rightarrow> bool" where
  "call_returns b =
     (case b of Own be \<Rightarrow> True | Inherited n \<Rightarrow> n = ''constructor'' \<or> n = ''toString''
      | _ \<Rightarrow> False)"

text \<open>
  \<^verbatim>\<open>MultiplexerServer.handleConnectMessage\<close>; \<open>ds\<close> is the input of
  \<^verbatim>\<open>this.randomId()\<close>, if it is called. The server's \<^verbatim>\<open>MultiplexSocket\<close> is created
  with the base \<^verbatim>\<open>close\<close> and registered by \<^verbatim>\<open>addChannel\<close>. The backend is called
  in the world that \<^verbatim>\<open>addChannel\<close> returned: the call is recorded with the socket
  as it is in that world.
\<close>

definition connect_with :: "nat \<Rightarrow> backend lookup \<Rightarrow> string \<Rightarrow> nat \<Rightarrow> nat list \<Rightarrow> world \<Rightarrow> outcome" where
  "connect_with m backend ref k ds w =
     (let channel = randomId ds;
          w1 = socket_send k (Open channel ref) w;
          sid = length (socks w1);
          w2 = w1\<lparr>socks := socks w1 @
                 [\<lparr>s_socket = k, s_channel = None, s_url = ws_url (sockets w1 ! k),
                   s_close = BaseClose, s_events = []\<rparr>]\<rparr>
      in (case addChannel m (Some sid) channel w2 of
            Returned w3 \<Rightarrow>
              let w4 = (if is_called backend
                        then w3\<lparr>calls := calls w3 @ [(backend, sid, socks w3 ! sid)]\<rparr> else w3)
              in if call_returns backend then Returned (emit sid OpenEvent w4)
                 else Thrown TypeError w4
          | r \<Rightarrow> r))"

definition handleConnectMessage :: "nat \<Rightarrow> message \<Rightarrow> nat \<Rightarrow> nat list \<Rightarrow> world \<Rightarrow> outcome" where
  "handleConnectMessage m msg k ds w =
     (case msg of
        Connect ref b \<Rightarrow>
          (case getBackend m b w of
             Own be \<Rightarrow> connect_with m (Own be) ref k ds w
           | Inherited n \<Rightarrow> connect_with m (Inherited n) ref k ds w
           | _ \<Rightarrow> Returned (console_error ''backend not found'' w))
      | _ \<Rightarrow> Returned (console_error ''expected connect message'' w))"

text \<open>The \<^verbatim>\<open>socket.onmessage\<close> handler installed by \<^verbatim>\<open>MultiplexerServer\<close>.\<close>

definition server_onmessage :: "nat \<Rightarrow> nat \<Rightarrow> raw \<Rightarrow> nat list \<Rightarrow> world \<Rightarrow> outcome" where
  "server_onmessage m k r ds w =
     (case r of
        Unparseable \<Rightarrow> Returned (console_error ''Failed to parse multiplexer message:'' w)
      | Parsed msg \<Rightarrow>
          catch_log
            (if is_connect msg then handleConnectMessage m msg k ds w
             else if truthy (mchannel msg) then handleChannelMessage m msg w
             else Returned (console_error (''unimplemented MultiplexMessage.type '' @ type_name msg) w)))"

text \<open>The constructor of \<^verbatim>\<open>MultiplexerServer\<close>.\<close>

definition new_MultiplexerServer :: "(string \<times> backend) list \<Rightarrow> world \<Rightarrow> nat \<times> world" where
  "new_MultiplexerServer table w =
     (length (muxers w),
      w\<lparr>muxers := muxers w @
          [\<lparr>channels = [], proto = None, m_socket = 0, pending = None, m_url = [],
            backends = table\<rparr>]\<rparr>)"

text \<open>
  The \<^verbatim>\<open>connection\<close> listener of the server: the transport hands over an open
  physical socket, the listener wires the default events and \<^verbatim>\<open>onmessage\<close>.
\<close>

definition on_connection :: "nat \<Rightarrow> world \<Rightarrow> nat \<times> world" where
  "on_connection m w =
     (length (sockets w),
      w\<lparr>sockets := sockets w @
          [\<lparr>readyState = OPEN, sent = [], ws_url = [], ws_protocols = None,
            ws_handlers = ServerHandlers m\<rparr>]\<rparr>)"

section \<open>The public interface and the transport's events\<close>

text \<open>
  What the application and the transport can do to a world. A transport event
  first changes the socket's \<^verbatim>\<open>readyState\<close>, then runs the handler the library
  assigned. An exception that escapes a handler or a call leaves the world as
  it was when thrown. An operation on an object that does not exist is no
  operation. A run ends with the list of operations, or earlier at an operation
  that this model does not describe.
\<close>

datatype op =
    NewMultiplexSocket string "protocols option" "nat list"
  | NewMultiplexerServer "(string \<times> backend) list"
  | Connection nat
  | SockSend nat string
  | SockClose nat "int option" "string option"
  | TransportOpen nat
  | TransportMessage nat raw "nat list"
  | TransportClose nat "int option" "string option"
  | TransportError nat

definition set_readyState :: "nat \<Rightarrow> ready_state \<Rightarrow> world \<Rightarrow> world" where
  "set_readyState k r w = w\<lparr>sockets := (sockets w)[k := (sockets w ! k)\<lparr>readyState := r\<rparr>]\<rparr>"

definition step_outcome :: "op \<Rightarrow> world \<Rightarrow> outcome" where
  "step_outcome x w =
     (case x of
        NewMultiplexSocket url p ds \<Rightarrow>
          (case new_MultiplexSocket url p ds w of
             Inl e \<Rightarrow> Thrown e w
           | Inr r \<Rightarrow> Returned (snd r))
      | NewMultiplexerServer table \<Rightarrow> Returned (snd (new_MultiplexerServer table w))
      | Connection m \<Rightarrow> Returned (if m < length (muxers w) then snd (on_connection m w) else w)
      | SockSend sid payload \<Rightarrow>
          Returned (if sid < length (socks w) then send sid payload w else w)
      | SockClose sid code reason \<Rightarrow>
          if sid < length (socks w) then close sid code reason w else Returned w
      | TransportOpen k \<Rightarrow>
          if k < length (sockets w) then
            (case ws_handlers (sockets w ! k) of
               ClientHandlers m \<Rightarrow> Returned (client_onopen m (set_readyState k OPEN w))
             | _ \<Rightarrow> Returned (set_readyState k OPEN w))
          else Returned w
      | TransportMessage k r ds \<Rightarrow>
          if k < length (sockets w) then
            (case ws_handlers (sockets w ! k) of
               ClientHandlers m \<Rightarrow> client_onmessage m r w
             | ServerHandlers m \<Rightarrow> server_onmessage m k r ds w
             | NoHandlers \<Rightarrow> Returned w)
          else Returned w
      | TransportClose k code reason \<Rightarrow>
          if k < length (sockets w) then
            (case ws_handlers (sockets w ! k) of
               ClientHandlers m \<Rightarrow> onclose m code reason (set_readyState k CLOSED w)
             | ServerHandlers m \<Rightarrow> onclose m code reason (set_readyState k CLOSED w)
             | NoHandlers \<Rightarrow> Returned (set_readyState k CLOSED w))
          else Returned w
      | TransportError k \<Rightarrow>
          if k < length (sockets w) then
            (case ws_handlers (sockets w ! k) of
               ClientHandlers m \<Rightarrow> onerror m w
             | ServerHandlers m \<Rightarrow> onerror m w
             | NoHandlers \<Rightarrow> Returned w)
          else Returned w)"

definition step :: "op \<Rightarrow> world \<Rightarrow> world" where
  "step x w = state_of (step_outcome x w)"

fun run :: "op list \<Rightarrow> world \<Rightarrow> world" where
  "run [] w = w"
| "run (x # xs) w =
     (case step_outcome x w of
        Unmodelled w' \<Rightarrow> w'
      | r \<Rightarrow> run xs (state_of r))"

definition empty_world :: world where
  "empty_world = \<lparr>sockets = [], socks = [], muxers = [], registry = [], console = [], calls = []\<rparr>"

section \<open>Example worlds\<close>

text \<open>
  A server with the backend \<^verbatim>\<open>echo\<close>, one accepted physical connection, and one
  logical socket opened by a connect request for which \<^verbatim>\<open>randomId\<close> gave "c1".
\<close>

definition server_demo :: world where
  "server_demo =
     run [NewMultiplexerServer [(''echo'', BackendFunction 0)], Connection 0,
          TransportMessage 0 (Parsed (Connect ''r1'' ''ws://host/echo'')) [12, 1]]
       empty_world"

text \<open>The same server after a second connect request for which \<^verbatim>\<open>randomId\<close> gave "c1" again.\<close>

definition collision_demo :: world where
  "collision_demo =
     step (TransportMessage 0 (Parsed (Connect ''r2'' ''ws://host/echo'')) [12, 1]) server_demo"

text \<open>A client after its first \<^verbatim>\<open>new MultiplexSocket("ws://host/echo")\<close>, with \<^verbatim>\<open>randomId\<close> giving "r1".\<close>

definition client_demo :: world where
  "client_demo = run [NewMultiplexSocket ''ws://host/echo'' None [27, 1]] empty_world"

text \<open>The client of \<open>client_demo\<close> after its physical socket has opened.\<close>

definition open_client_demo :: world where
  "open_client_demo = run [TransportOpen 0] client_demo"

text \<open>
  The client of \<open>client_demo\<close> after its physical socket has opened, an open frame
  has assigned the channel "toString" to its socket, and a close frame for that
  channel has arrived; and the same with the channel "__proto__".
\<close>

definition toString_demo :: world where
  "toString_demo =
     run [TransportOpen 0, TransportMessage 0 (Parsed (Open ''toString'' ''r1'')) [],
          TransportMessage 0 (Parsed (Close ''toString'' (Some 1000) None)) []]
       client_demo"

definition proto_demo :: world where
  "proto_demo =
     run [TransportOpen 0, TransportMessage 0 (Parsed (Open ''__proto__'' ''r1'')) [],
          TransportMessage 0 (Parsed (Close ''__proto__'' (Some 1000) None)) []]
       client_demo"

text \<open>
  The server of \<open>server_demo\<close> with three logical sockets, registered under "c1",
  "42" and "c3".
\<close>

definition three_demo :: world where
  "three_demo =
     run [NewMultiplexerServer [(''echo'', BackendFunction 0)], Connection 0,
          TransportMessage 0 (Parsed (Connect ''r1'' ''ws://host/echo'')) [12, 1],
          TransportMessage 0 (Parsed (Connect ''r2'' ''ws://host/echo'')) [4, 2],
          TransportMessage 0 (Parsed (Connect ''r3'' ''ws://host/echo'')) [12, 3]]
       empty_world"

text \<open>
  A client whose first socket is closed by the application before the open
  frame for it arrives, and whose second socket completes its handshake.
\<close>

definition early_close_demo :: world where
  "early_close_demo =
     run [NewMultiplexSocket ''ws://host/echo'' None [27, 1], SockClose 0 None None,
          TransportOpen 0, TransportMessage 0 (Parsed (Open ''c1'' ''r1'')) [],
          NewMultiplexSocket ''ws://host/echo'' None [27, 2],
          TransportMessage 0 (Parsed (Open ''c2'' ''r2'')) []]
       empty_world"

text \<open>A world holding one logical socket as \<^verbatim>\<open>super()\<close> leaves it, before any role touched it.\<close>

definition bare_world :: world where
  "bare_world =
     empty_world\<lparr>socks := [\<lparr>s_socket = 0, s_channel = None, s_url = [], s_close = BaseClose,
                             s_events = []\<rparr>]\<rparr>"

section \<open>Relations between worlds\<close>

text \<open>
  \<open>preserved w w'\<close>: no object of \<open>w\<close> is lost in \<open>w'\<close>; every multiplexer keeps its
  \<^verbatim>\<open>socket\<close>, and a \<^verbatim>\<open>pending\<close> that is \<^verbatim>\<open>undefined\<close> stays so; every entry of the
  client pool is kept, and a new one refers to an existing client; a logical
  socket whose \<^verbatim>\<open>close\<close> is the base method in \<open>w'\<close> existed in \<open>w\<close> with the
  base method; and a backend call of \<open>w'\<close> that got a socket with the base method
  was made in \<open>w\<close> already.
\<close>

definition preserved :: "world \<Rightarrow> world \<Rightarrow> bool" where
  "preserved w w' =
     (length (muxers w) \<le> length (muxers w') \<and> length (socks w) \<le> length (socks w')
      \<and> length (sockets w) \<le> length (sockets w')
      \<and> (\<forall>m < length (muxers w).
            m_socket (muxers w' ! m) = m_socket (muxers w ! m)
            \<and> (pending (muxers w ! m) = None \<longrightarrow> pending (muxers w' ! m) = None))
      \<and> (\<forall>key m. map_of (registry w) key = Some m \<longrightarrow> map_of (registry w') key = Some m)
      \<and> (\<forall>sid < length (socks w'). s_close (socks w' ! sid) = BaseClose \<longrightarrow>
            sid < length (socks w) \<and> s_close (socks w ! sid) = BaseClose)
      \<and> (\<forall>e \<in> set (registry w'). e \<in> set (registry w) \<or> snd e < length (muxers w'))
      \<and> (\<forall>c \<in> set (calls w'). s_close (snd (snd c)) = BaseClose \<longrightarrow> c \<in> set (calls w)))"

text \<open>Every client in the pool is an existing multiplexer.\<close>

definition pool_wf :: "world \<Rightarrow> bool" where
  "pool_wf w = (\<forall>m \<in> snd ` set (registry w). m < length (muxers w))"

text \<open>
  A sequence of \<^verbatim>\<open>connect\<close> calls on one client, each for a socket and the
  input of its \<^verbatim>\<open>randomId\<close>, and the connect frame of such a call.
\<close>

fun connects :: "nat \<Rightarrow> (nat \<times> nat list) list \<Rightarrow> world \<Rightarrow> world" where
  "connects m [] w = w"
| "connects m ((sid, ds) # rs) w = connects m rs (connect m sid ds w)"

definition connect_frame :: "world \<Rightarrow> nat \<times> nat list \<Rightarrow> message" where
  "connect_frame w r = Connect (randomId (snd r)) (s_url (socks w ! fst r))"

text \<open>
  \<open>live_entry w m kv\<close>: the registry entry \<open>kv\<close> of multiplexer \<open>m\<close> holds a logical
  socket that is either registered by \<^verbatim>\<open>addChannel\<close> under its key and not
  closed, or pending under its key as the temporary ref of \<^verbatim>\<open>connect\<close>.
\<close>

definition live_entry :: "world \<Rightarrow> nat \<Rightarrow> string \<times> nat option \<Rightarrow> bool" where
  "live_entry w m kv =
     (case snd kv of
        None \<Rightarrow> False
      | Some sid \<Rightarrow>
          sid < length (socks w)
          \<and> (s_close (socks w ! sid) = ChannelClose m False \<and> s_channel (socks w ! sid) = Some (fst kv)
             \<or> s_close (socks w ! sid) = TempClose m (fst kv)))"

text \<open>
  The registry keys that \<^verbatim>\<open>close\<close> of a socket deletes, and the sockets whose
  \<^verbatim>\<open>close\<close> was assigned by multiplexer \<open>m\<close>.
\<close>

definition gone :: "world \<Rightarrow> nat \<Rightarrow> string set" where
  "gone w sid =
     (case s_close (socks w ! sid) of
        BaseClose \<Rightarrow> {}
      | TempClose m ref \<Rightarrow> {ref}
      | ChannelClose m b \<Rightarrow> if b then {} else {key_of (s_channel (socks w ! sid))})"

definition closable :: "world \<Rightarrow> nat \<Rightarrow> nat \<Rightarrow> bool" where
  "closable w m sid =
     (sid < length (socks w)
      \<and> ((\<exists>b. s_close (socks w ! sid) = ChannelClose m b)
          \<or> (\<exists>ref. s_close (socks w ! sid) = TempClose m ref)))"

section \<open>Closing a registered socket\<close>

lemma server_demo_eval:
  "server_demo =
     \<lparr>sockets = [\<lparr>readyState = OPEN, sent = [Open ''c1'' ''r1''], ws_url = [],
                  ws_protocols = None, ws_handlers = ServerHandlers 0\<rparr>],
      socks = [\<lparr>s_socket = 0, s_channel = Some ''c1'', s_url = [],
                s_close = ChannelClose 0 False, s_events = [OpenEvent]\<rparr>],
      muxers = [\<lparr>channels = [(''c1'', Some 0)], proto = None, m_socket = 0, pending = None,
                 m_url = [], backends = [(''echo'', BackendFunction 0)]\<rparr>],
      registry = [], console = [],
      calls = [(Own (BackendFunction 0), 0,
                \<lparr>s_socket = 0, s_channel = Some ''c1'', s_url = [],
                 s_close = ChannelClose 0 False, s_events = []\<rparr>)]\<rparr>"
  unfolding server_demo_def by code_simp

lemma client_demo_eval:
  "client_demo =
     \<lparr>sockets = [\<lparr>readyState = CONNECTING, sent = [], ws_url = ''ws://host'',
                  ws_protocols = None, ws_handlers = ClientHandlers 0\<rparr>],
      socks = [\<lparr>s_socket = 0, s_channel = None, s_url = ''ws://host/echo'',
                s_close = TempClose 0 ''r1'', s_events = []\<rparr>],
      muxers = [\<lparr>channels = [(''r1'', Some 0)], proto = None, m_socket = 0,
                 pending = Some [Connect ''r1'' ''ws://host/echo''],
                 m_url = ''ws://host'', backends = []\<rparr>],
      registry = [(''ws://host'', 0)], console = [], calls = []\<rparr>"
  unfolding client_demo_def by code_simp

lemma close_channel_first:
  assumes sid: "sid < length (socks w)"
    and cl: "s_close (socks w ! sid) = ChannelClose m False"
    and k: "s_socket (socks w ! sid) < length (sockets w)"
    and m: "m < length (muxers w)"
  shows "\<exists>w1. close sid c r w = Returned w1
     \<and> s_close (socks w1 ! sid) = ChannelClose m True
     \<and> sockets w1 = (sockets w)[s_socket (socks w ! sid) :=
          (sockets w ! s_socket (socks w ! sid))
            \<lparr>sent := sent (sockets w ! s_socket (socks w ! sid)) @
               (if readyState (sockets w ! s_socket (socks w ! sid)) = OPEN
                then [Close (key_of (s_channel (socks w ! sid))) c r] else [])\<rparr>]
     \<and> s_events (socks w1 ! sid) = s_events (socks w ! sid) @ [CloseEvent c r]
     \<and> channels (muxers w1 ! m) =
         obj_delete (channels (muxers w ! m)) (key_of (s_channel (socks w ! sid)))"
  using assms
  by (simp add: close_def Let_def emit_def socket_send_def set_channels_def)

lemma close_channel_again:
  "s_close (socks w ! sid) = ChannelClose m True \<Longrightarrow> close sid c r w = Returned w"
  by (simp add: close_def)

text \<open>
  C4, as stated, fails for a logical socket that still waits for its open
  frame: its \<^verbatim>\<open>close\<close> is the temporary handler of \<^verbatim>\<open>connect\<close>. Closing it twice
  while the physical connection is open hands no close frame to the transport
  and delivers no close event.
\<close>

theorem pending_close_emits_nothing:
  "s_close (socks open_client_demo ! 0) = TempClose 0 ''r1''
   \<and> readyState (sockets open_client_demo ! 0) = OPEN
   \<and> sent (sockets open_client_demo ! 0) = [Connect ''r1'' ''ws://host/echo'']
   \<and> sent (sockets (run [SockClose 0 None None, SockClose 0 None None] open_client_demo) ! 0)
        = [Connect ''r1'' ''ws://host/echo'']
   \<and> s_events (socks (run [SockClose 0 None None, SockClose 0 None None] open_client_demo) ! 0) = []"
  unfolding open_client_demo_def client_demo_def by code_simp

lemma obj_delete_twice: "obj_delete (obj_delete obj k) k = obj_delete obj k"
  by (simp add: obj_delete_def)

lemma close_temp_twice:
  assumes cl: "s_close (socks w ! sid) = TempClose m ref" and m: "m < length (muxers w)"
  shows "\<exists>w1. close sid c r w = Returned w1
     \<and> close sid c' r' w1 = Returned w1
     \<and> sockets w1 = sockets w \<and> socks w1 = socks w
     \<and> channels (muxers w1 ! m) = obj_delete (channels (muxers w ! m)) ref"
  using assms
  by (simp add: close_def set_channels_def obj_delete_twice)

text \<open>
  C4, amended. \<^verbatim>\<open>close()\<close> is idempotent. For a socket registered by
  \<^verbatim>\<open>addChannel\<close>, the first call returns a world \<open>w1\<close> in which the socket's
  transport was handed exactly one close frame if it was open and none otherwise
  (no other transport was touched), the socket got exactly one close event, and
  the registry lost the socket's channel. For a socket pending under its
  temporary ref, the first call only deletes that ref from the registry. In
  both cases a second call, with any arguments, returns \<open>w1\<close> unchanged.
\<close>

theorem close_twice:
  assumes sid: "sid < length (socks w)"
    and k: "s_socket (socks w ! sid) < length (sockets w)"
    and m: "m < length (muxers w)"
  shows "(s_close (socks w ! sid) = ChannelClose m False \<longrightarrow>
      (\<exists>w1. close sid c r w = Returned w1
       \<and> close sid c' r' w1 = Returned w1
       \<and> sockets w1 = (sockets w)[s_socket (socks w ! sid) :=
            (sockets w ! s_socket (socks w ! sid))
              \<lparr>sent := sent (sockets w ! s_socket (socks w ! sid)) @
                 (if readyState (sockets w ! s_socket (socks w ! sid)) = OPEN
                  then [Close (key_of (s_channel (socks w ! sid))) c r] else [])\<rparr>]
       \<and> s_events (socks w1 ! sid) = s_events (socks w ! sid) @ [CloseEvent c r]
       \<and> channels (muxers w1 ! m) =
           obj_delete (channels (muxers w ! m)) (key_of (s_channel (socks w ! sid)))))
   \<and> (s_close (socks w ! sid) = TempClose m ref \<longrightarrow>
      (\<exists>w1. close sid c r w = Returned w1
       \<and> close sid c' r' w1 = Returned w1
       \<and> sockets w1 = sockets w \<and> socks w1 = socks w
       \<and> channels (muxers w1 ! m) = obj_delete (channels (muxers w ! m)) ref))"
proof (intro conjI impI)
  assume cl: "s_close (socks w ! sid) = ChannelClose m False"
  from close_channel_first [OF sid cl k m, of c r] obtain w1 where
    w1: "close sid c r w = Returned w1" "s_close (socks w1 ! sid) = ChannelClose m True"
     "sockets w1 = (sockets w)[s_socket (socks w ! sid) :=
          (sockets w ! s_socket (socks w ! sid))
            \<lparr>sent := sent (sockets w ! s_socket (socks w ! sid)) @
               (if readyState (sockets w ! s_socket (socks w ! sid)) = OPEN
                then [Close (key_of (s_channel (socks w ! sid))) c r] else [])\<rparr>]"
     "s_events (socks w1 ! sid) = s_events (socks w ! sid) @ [CloseEvent c r]"
     "channels (muxers w1 ! m) =
         obj_delete (channels (muxers w ! m)) (key_of (s_channel (socks w ! sid)))"
    by blast
  from close_channel_again [OF w1(2)] have "close sid c' r' w1 = Returned w1" .
  with w1 show "\<exists>w1. close sid c r w = Returned w1
       \<and> close sid c' r' w1 = Returned w1
       \<and> sockets w1 = (sockets w)[s_socket (socks w ! sid) :=
            (sockets w ! s_socket (socks w ! sid))
              \<lparr>sent := sent (sockets w ! s_socket (socks w ! sid)) @
                 (if readyState (sockets w ! s_socket (socks w ! sid)) = OPEN
                  then [Close (key_of (s_channel (socks w ! sid))) c r] else [])\<rparr>]
       \<and> s_events (socks w1 ! sid) = s_events (socks w ! sid) @ [CloseEvent c r]
       \<and> channels (muxers w1 ! m) =
           obj_delete (channels (muxers w ! m)) (key_of (s_channel (socks w ! sid)))"
    by blast
next
  assume "s_close (socks w ! sid) = TempClose m ref"
  from close_temp_twice [OF this m]
  show "\<exists>w1. close sid c r w = Returned w1
       \<and> close sid c' r' w1 = Returned w1
       \<and> sockets w1 = sockets w \<and> socks w1 = socks w
       \<and> channels (muxers w1 ! m) = obj_delete (channels (muxers w ! m)) ref" .
qed

theorem close_twice_witness:
  "(\<exists>w1. close 0 (Some 1000) (Some ''bye'') server_demo = Returned w1
     \<and> close 0 None None w1 = Returned w1
     \<and> sockets w1 = [\<lparr>readyState = OPEN,
            sent = [Open ''c1'' ''r1'', Close ''c1'' (Some 1000) (Some ''bye'')], ws_url = [],
            ws_protocols = None, ws_handlers = ServerHandlers 0\<rparr>]
     \<and> s_events (socks w1 ! 0) = [OpenEvent, CloseEvent (Some 1000) (Some ''bye'')]
     \<and> channels (muxers w1 ! 0) = [])
   \<and> (\<exists>w1. close 0 (Some 1000) (Some ''bye'') client_demo = Returned w1
     \<and> close 0 None None w1 = Returned w1
     \<and> sockets w1 = sockets client_demo \<and> socks w1 = socks client_demo
     \<and> channels (muxers w1 ! 0) = [])"
proof -
  have 1: "\<exists>w1. close 0 (Some 1000) (Some ''bye'') server_demo = Returned w1
     \<and> close 0 None None w1 = Returned w1
     \<and> sockets w1 = [\<lparr>readyState = OPEN,
            sent = [Open ''c1'' ''r1'', Close ''c1'' (Some 1000) (Some ''bye'')], ws_url = [],
            ws_protocols = None, ws_handlers = ServerHandlers 0\<rparr>]
     \<and> s_events (socks w1 ! 0) = [OpenEvent, CloseEvent (Some 1000) (Some ''bye'')]
     \<and> channels (muxers w1 ! 0) = []"
    using close_twice [where sid = 0 and w = server_demo and m = 0 and c = "Some 1000"
        and r = "Some ''bye''" and c' = None and r' = None and ref = "''r1''"]
    by (simp add: server_demo_eval key_of_def obj_delete_def)
  have 2: "\<exists>w1. close 0 (Some 1000) (Some ''bye'') client_demo = Returned w1
     \<and> close 0 None None w1 = Returned w1
     \<and> sockets w1 = sockets client_demo \<and> socks w1 = socks client_demo
     \<and> channels (muxers w1 ! 0) = []"
    using close_twice [where sid = 0 and w = client_demo and m = 0 and c = "Some 1000"
        and r = "Some ''bye''" and c' = None and r' = None and ref = "''r1''"]
    by (simp add: client_demo_eval obj_delete_def)
  from 1 2 show ?thesis by blast
qed

text \<open>
  C1. The socket of \<open>server_demo\<close> is closed and then sent on. The closure of
  \<^verbatim>\<open>addChannel\<close> leaves \<^verbatim>\<open>sock.channel\<close> assigned, so the guard of \<^verbatim>\<open>send\<close> does not
  fire: the data frame is handed to the transport and nothing is logged.
\<close>

theorem send_after_close_transmits:
  "sent (sockets (run [SockClose 0 None None, SockSend 0 ''hi''] server_demo) ! 0) =
     [Open ''c1'' ''r1'', Close ''c1'' None None, Data ''c1'' ''hi'']
   \<and> console (run [SockClose 0 None None, SockSend 0 ''hi''] server_demo) = []
   \<and> s_close (socks (run [SockClose 0 None None] server_demo) ! 0) = ChannelClose 0 True"
  by code_simp


section \<open>Routing inbound frames\<close>

lemma channels_get_deleted:
  "proto mx = None \<Longrightarrow> k \<notin> set object_prototype \<Longrightarrow>
   channels_get (mx\<lparr>channels := obj_delete (channels mx) k\<rparr>) k = Undefined"
proof -
  assume a: "proto mx = None" "k \<notin> set object_prototype"
  have "map_of (obj_delete (channels mx) k) k = None"
    by (auto simp: map_of_eq_None_iff obj_delete_def)
  with a show ?thesis by (simp add: channels_get_def)
qed

text \<open>
  What holds of routing: for a channel \<open>X\<close> registered by \<^verbatim>\<open>addChannel\<close> in a
  registry whose prototype is \<^verbatim>\<open>Object.prototype\<close>, with \<open>X\<close> not empty and not the
  name of a member of \<^verbatim>\<open>Object.prototype\<close>, a close frame for \<open>X\<close> delivers one
  close event and removes \<open>X\<close>, and a data frame for \<open>X\<close> after that only logs
  "channel not found".
\<close>

lemma close_frame_then_data_dropped:
  assumes m: "m < length (muxers w)"
    and X: "X \<noteq> []" "X \<notin> set object_prototype"
    and pr: "proto (muxers w ! m) = None"
    and reg: "map_of (channels (muxers w ! m)) X = Some (Some sid)"
    and sid: "sid < length (socks w)"
    and ch: "s_channel (socks w ! sid) = Some X"
    and cl: "s_close (socks w ! sid) = ChannelClose m False"
    and k: "s_socket (socks w ! sid) < length (sockets w)"
  shows "\<exists>w1. handleChannelMessage m (Close X c r) w = Returned w1
     \<and> s_events (socks w1 ! sid) = s_events (socks w ! sid) @ [CloseEvent c r]
     \<and> X \<notin> fst ` set (channels (muxers w1 ! m))
     \<and> handleChannelMessage m (Data X d) w1 =
           Returned (console_error (''channel not found'' @ X) w1)"
proof -
  have get: "channels_get (muxers w ! m) X = Own sid"
    using reg by (simp add: channels_get_def)
  have tr: "truthy (mchannel (Close X c r))" "truthy (mchannel (Data X d))"
    using X by (simp_all add: mchannel_def truthy_def)
  let ?w1 = "state_of (close sid c r w)"
  have cl1: "close sid c r w = Returned ?w1"
    and ev: "s_events (socks ?w1 ! sid) = s_events (socks w ! sid) @ [CloseEvent c r]"
    and mx: "muxers ?w1 ! m = (muxers w ! m)\<lparr>channels := obj_delete (channels (muxers w ! m)) X\<rparr>"
    using sid cl k m ch
    by (simp_all add: close_def Let_def emit_def socket_send_def set_channels_def key_of_def)
  have route: "handleChannelMessage m (Close X c r) w = Returned ?w1"
    using tr get cl1
    by (simp add: handleChannelMessage_def mchannel_def key_of_def handleMessage_def)
  have miss: "channels_get (muxers ?w1 ! m) X = Undefined"
    unfolding mx using pr X(2) by (rule channels_get_deleted)
  have drop: "handleChannelMessage m (Data X d) ?w1 =
      Returned (console_error (''channel not found'' @ X) ?w1)"
    using tr miss by (simp add: handleChannelMessage_def mchannel_def key_of_def)
  have gone: "X \<notin> fst ` set (channels (muxers ?w1 ! m))"
    unfolding mx by (auto simp: obj_delete_def)
  from route ev gone drop show ?thesis by blast
qed

text \<open>
  C3. On a client the channel is the one the peer's open frame carries. With
  the channel "toString" registered, the close frame delivers the close event
  and deletes the entry; the data frame that follows finds the inherited
  \<^verbatim>\<open>Object.prototype.toString\<close>, the call of its \<^verbatim>\<open>handleMessage\<close> throws, and the
  handler logs a parse failure, not a routing miss. With the channel
  "__proto__" the assignment in \<^verbatim>\<open>addChannel\<close> makes the socket the prototype of
  the registry, the \<^verbatim>\<open>delete\<close> of the close removes nothing, and the data frame
  that follows is delivered to the closed socket.
\<close>

theorem late_data_frame_not_a_routing_miss:
  "channels (muxers (run [TransportOpen 0, TransportMessage 0 (Parsed (Open ''toString'' ''r1'')) []]
      client_demo) ! 0) = [(''toString'', Some 0)]
   \<and> channels (muxers toString_demo ! 0) = []
   \<and> s_events (socks toString_demo ! 0) = [OpenEvent, CloseEvent (Some 1000) None]
   \<and> handleChannelMessage 0 (Data ''toString'' ''late'') toString_demo
        = Thrown TypeError toString_demo
   \<and> console (state_of (client_onmessage 0 (Parsed (Data ''toString'' ''late'')) toString_demo))
        = [''Failed to parse multiplexer message:'']
   \<and> s_events (socks proto_demo ! 0) = [OpenEvent, CloseEvent (Some 1000) None]
   \<and> s_close (socks proto_demo ! 0) = ChannelClose 0 True
   \<and> s_events (socks (state_of
         (client_onmessage 0 (Parsed (Data ''__proto__'' ''late'')) proto_demo)) ! 0)
        = [OpenEvent, CloseEvent (Some 1000) None, MessageEvent ''late'']"
  unfolding toString_demo_def proto_demo_def client_demo_def by code_simp

section \<open>The server's connect handshake\<close>

text \<open>
  What holds of an unknown backend: if the backend URL of a connect message has
  no non-empty path segment, or its last one is neither a key of the server's
  \<^verbatim>\<open>backends\<close> nor the name of a member of \<^verbatim>\<open>Object.prototype\<close>, the world changes
  only by the log line "backend not found".
\<close>

lemma unknown_backend_dropped:
  assumes "case backend_id b of None \<Rightarrow> True
           | Some name \<Rightarrow> name \<notin> fst ` set (backends (muxers w ! m))
                          \<and> name \<notin> set object_prototype"
  shows "handleConnectMessage m (Connect ref b) k ds w =
           Returned (console_error ''backend not found'' w)"
proof -
  have "getBackend m b w = Undefined"
    using assms
    by (auto simp: getBackend_def obj_get_def split: option.splits dest!: map_of_SomeD
        intro: rev_image_eqI)
  then show ?thesis by (simp add: handleConnectMessage_def)
qed

text \<open>
  C8. The server of \<open>server_demo\<close> has the one backend "echo". A connect message
  for "ws://host/constructor" finds the inherited \<^verbatim>\<open>Object\<close> in the backends
  table: the server sends an open frame with a new channel id, registers a new
  logical socket, calls the inherited function with it, and logs nothing.
\<close>

theorem inherited_backend_name_opens_channel:
  "backend_id ''ws://host/constructor'' = Some ''constructor''
   \<and> map_of (backends (muxers server_demo ! 0)) ''constructor'' = None
   \<and> getBackend 0 ''ws://host/constructor'' server_demo = Inherited ''constructor''
   \<and> sent (sockets (step (TransportMessage 0
          (Parsed (Connect ''r9'' ''ws://host/constructor'')) [12, 2]) server_demo) ! 0)
        = [Open ''c1'' ''r1'', Open ''c2'' ''r9'']
   \<and> channels (muxers (step (TransportMessage 0
          (Parsed (Connect ''r9'' ''ws://host/constructor'')) [12, 2]) server_demo) ! 0)
        = [(''c1'', Some 0), (''c2'', Some 1)]
   \<and> length (socks (step (TransportMessage 0
          (Parsed (Connect ''r9'' ''ws://host/constructor'')) [12, 2]) server_demo)) = 2
   \<and> console (step (TransportMessage 0
          (Parsed (Connect ''r9'' ''ws://host/constructor'')) [12, 2]) server_demo) = []"
  unfolding server_demo_def by code_simp

lemma obj_set_fresh: "k \<notin> fst ` set obj \<Longrightarrow> obj_set obj k v = obj @ [(k, v)]"
  by (induction obj) auto

lemma upd_sent_ws_url: "ws_url (xs[i := (xs ! i)\<lparr>sent := s\<rparr>] ! j) = ws_url (xs ! j)"
  by (cases "i < length xs") (auto simp: nth_list_update list_update_beyond not_less)

lemma randomId_length: "length (randomId ds) \<le> 5"
  by (simp add: randomId_def)

lemma randomId_plain:
  "randomId ds \<noteq> ''__proto__''" "randomId ds \<notin> set getters"
  "randomId ds \<notin> set object_prototype"
  using randomId_length [of ds] by (auto simp: getters_def object_prototype_def)

lemma channels_set_fresh:
  assumes "k \<notin> fst ` set (channels mx)" "k \<noteq> ''__proto__''" "k \<notin> set getters"
  shows "channels_set mx k v = Some (mx\<lparr>channels := channels mx @ [(k, v)]\<rparr>)"
proof -
  from assms(1) have "map_of (channels mx) k = None" by (simp add: map_of_eq_None_iff)
  with assms show ?thesis by (simp add: channels_set_def obj_set_fresh)
qed

text \<open>
  C2, as stated, fails: \<^verbatim>\<open>handleConnectMessage\<close> registers whatever \<^verbatim>\<open>randomId\<close>
  returns without looking at the registry. When it returns "c1" while "c1" is
  registered, the second socket replaces the first in the registry, and both
  open sockets carry the channel id "c1".
\<close>

theorem connect_ids_collide:
  "channels (muxers server_demo ! 0) = [(''c1'', Some 0)]
   \<and> channels (muxers collision_demo ! 0) = [(''c1'', Some 1)]
   \<and> s_close (socks collision_demo ! 0) = ChannelClose 0 False
   \<and> s_channel (socks collision_demo ! 0) = Some ''c1''
   \<and> s_channel (socks collision_demo ! 1) = Some ''c1''"
  unfolding collision_demo_def server_demo_def by code_simp

text \<open>
  C2, amended. A connect request that resolves to a backend of the table, and
  for which \<^verbatim>\<open>randomId\<close> returns an id that is not a key of the registry, appends
  one entry for a new socket under that id; every earlier entry and every
  earlier socket is left as it was.
\<close>

theorem connect_fresh_id_registers:
  assumes be: "getBackend m b w = Own backend"
    and fresh: "randomId ds \<notin> fst ` set (channels (muxers w ! m))"
    and m: "m < length (muxers w)"
  shows "\<exists>w'. handleConnectMessage m (Connect ref b) k ds w = Returned w'
     \<and> channels (muxers w' ! m) =
          channels (muxers w ! m) @ [(randomId ds, Some (length (socks w)))]
     \<and> socks w' = socks w @ [\<lparr>s_socket = k, s_channel = Some (randomId ds),
           s_url = ws_url (sockets w ! k),
           s_close = ChannelClose m False, s_events = [OpenEvent]\<rparr>]"
  using assms
  by (simp add: handleConnectMessage_def connect_with_def Let_def addChannel_def socket_send_def
      emit_def key_of_def channels_set_fresh randomId_plain upd_sent_ws_url is_called_def
      call_returns_def)

theorem connect_fresh_id_registers_witness:
  "\<exists>w'. handleConnectMessage 0 (Connect ''r2'' ''ws://host/echo'') 0 [12, 2] server_demo = Returned w'
     \<and> channels (muxers w' ! 0) = [(''c1'', Some 0), (''c2'', Some 1)]
     \<and> socks w' = socks server_demo @ [\<lparr>s_socket = 0, s_channel = Some ''c2'',
           s_url = [], s_close = ChannelClose 0 False, s_events = [OpenEvent]\<rparr>]"
proof -
  have be: "getBackend 0 ''ws://host/echo'' server_demo = Own (BackendFunction 0)"
    unfolding server_demo_eval by code_simp
  have rid: "randomId [12, 2] = ''c2''" by code_simp
  have fresh: "randomId [12, 2] \<notin> fst ` set (channels (muxers server_demo ! 0))"
    by (simp add: server_demo_eval rid)
  have m: "0 < length (muxers server_demo)"
    by (simp add: server_demo_eval)
  from connect_fresh_id_registers [OF be fresh m, of "''r2''" 0]
  show ?thesis by (simp add: server_demo_eval rid)
qed

section \<open>What every operation preserves\<close>

lemma preserved_refl: "preserved w w"
  by (simp add: preserved_def)

lemma preserved_trans:
  assumes ab: "preserved a b" and bc: "preserved b c"
  shows "preserved a c"
proof -
  have len: "length (muxers a) \<le> length (muxers b)"
    using ab by (simp add: preserved_def)
  have mux: "m_socket (muxers c ! m) = m_socket (muxers a ! m)
      \<and> (pending (muxers a ! m) = None \<longrightarrow> pending (muxers c ! m) = None)"
    if m: "m < length (muxers a)" for m
  proof -
    from m len have mb: "m < length (muxers b)" by simp
    from ab m have 1: "m_socket (muxers b ! m) = m_socket (muxers a ! m)"
      "pending (muxers a ! m) = None \<longrightarrow> pending (muxers b ! m) = None"
      by (simp_all add: preserved_def)
    from bc mb have 2: "m_socket (muxers c ! m) = m_socket (muxers b ! m)"
      "pending (muxers b ! m) = None \<longrightarrow> pending (muxers c ! m) = None"
      by (simp_all add: preserved_def)
    from 1 2 show ?thesis by simp
  qed
  have reg: "map_of (registry c) key = Some m" if "map_of (registry a) key = Some m" for key m
    using ab bc that by (simp add: preserved_def)
  have base: "sid < length (socks a) \<and> s_close (socks a ! sid) = BaseClose"
    if "sid < length (socks c)" "s_close (socks c ! sid) = BaseClose" for sid
  proof -
    from bc that have "sid < length (socks b) \<and> s_close (socks b ! sid) = BaseClose"
      by (simp add: preserved_def)
    with ab show ?thesis by (simp add: preserved_def)
  qed
  have lens: "length (muxers a) \<le> length (muxers c)" "length (socks a) \<le> length (socks c)"
    "length (sockets a) \<le> length (sockets c)"
    using ab bc by (simp_all add: preserved_def)
  have pool: "e \<in> set (registry a) \<or> snd e < length (muxers c)"
    if e: "e \<in> set (registry c)" for e
  proof -
    from bc e have "e \<in> set (registry b) \<or> snd e < length (muxers c)"
      by (simp add: preserved_def)
    moreover have "e \<in> set (registry a) \<or> snd e < length (muxers b)" if "e \<in> set (registry b)"
      using ab that by (simp add: preserved_def)
    moreover have "length (muxers b) \<le> length (muxers c)"
      using bc by (simp add: preserved_def)
    ultimately show ?thesis by auto
  qed
  have call: "c' \<in> set (calls a)"
    if "c' \<in> set (calls c)" "s_close (snd (snd c')) = BaseClose" for c'
  proof -
    from bc that have "c' \<in> set (calls b)" by (simp add: preserved_def)
    with ab that show ?thesis by (simp add: preserved_def)
  qed
  show ?thesis
    unfolding preserved_def using lens mux reg base pool call by blast
qed

lemma upd_m_socket: "m_socket (xs[i := (xs ! i)\<lparr>channels := c\<rparr>] ! j) = m_socket (xs ! j)"
  by (cases "i < length xs") (auto simp: nth_list_update list_update_beyond not_less)

lemma upd_pending: "pending (xs[i := (xs ! i)\<lparr>channels := c\<rparr>] ! j) = pending (xs ! j)"
  by (cases "i < length xs") (auto simp: nth_list_update list_update_beyond not_less)

lemma upd_events_close: "s_close (xs[i := (xs ! i)\<lparr>s_events := c\<rparr>] ! j) = s_close (xs ! j)"
  by (cases "i < length xs") (auto simp: nth_list_update list_update_beyond not_less)

lemma upd_close_base:
  "c \<noteq> BaseClose \<Longrightarrow> j < length xs \<Longrightarrow> s_close (xs[i := (xs ! i)\<lparr>s_close := c\<rparr>] ! j) = BaseClose
     \<Longrightarrow> s_close (xs ! j) = BaseClose"
  by (cases "i = j") auto

lemma upd_pending_m_socket:
  "m_socket (xs[i := (xs ! i)\<lparr>pending := c\<rparr>] ! j) = m_socket (xs ! j)"
  by (cases "i < length xs") (auto simp: nth_list_update list_update_beyond not_less)

lemma preserved_socket_send: "preserved w (socket_send k f w)"
  by (simp add: preserved_def socket_send_def)

lemma preserved_console_error: "preserved w (console_error l w)"
  by (simp add: preserved_def console_error_def)

lemma preserved_emit: "preserved w (emit sid ev w)"
  by (simp add: preserved_def emit_def upd_events_close)

lemma preserved_set_channels: "preserved w (set_channels m obj w)"
  by (simp add: preserved_def set_channels_def upd_m_socket upd_pending)

lemma preserved_set_readyState: "preserved w (set_readyState k r w)"
  by (simp add: preserved_def set_readyState_def)

lemma preserved_set_close:
  "c \<noteq> BaseClose \<Longrightarrow> preserved w (w\<lparr>socks := (socks w)[sid := (socks w ! sid)\<lparr>s_close := c\<rparr>]\<rparr>)"
  by (auto simp: preserved_def dest: upd_close_base)

lemma preserved_add_close:
  "preserved w (w\<lparr>socks := (socks w)[sid := (socks w ! sid)
      \<lparr>s_channel := ch, s_close := ChannelClose m b\<rparr>]\<rparr>)"
proof -
  have "s_close (socks w ! j) = BaseClose"
    if "j < length (socks w)"
      "s_close ((socks w)[sid := (socks w ! sid)\<lparr>s_channel := ch, s_close := ChannelClose m b\<rparr>] ! j) = BaseClose"
    for j
    using that by (cases "sid = j") auto
  then show ?thesis by (auto simp: preserved_def)
qed

lemma preserved_send: "preserved w (send sid d w)"
  by (simp add: send_def preserved_console_error preserved_socket_send)

lemma preserved_close: "preserved w (state_of (close sid c r w))"
proof (cases "s_close (socks w ! sid)")
  case BaseClose
  then show ?thesis by (simp add: close_def preserved_refl)
next
  case (TempClose m ref)
  then show ?thesis by (simp add: close_def preserved_set_channels)
next
  case (ChannelClose m b)
  show ?thesis
  proof (cases b)
    case True
    with ChannelClose show ?thesis by (simp add: close_def preserved_refl)
  next
    case False
    with ChannelClose show ?thesis
      unfolding close_def Let_def
      by (auto intro!: preserved_trans [OF _ preserved_set_channels]
            preserved_trans [OF _ preserved_emit]
            preserved_trans [OF _ preserved_socket_send] preserved_set_close)
  qed
qed

lemma preserved_handleMessage: "preserved w (state_of (handleMessage sid msg w))"
  by (cases msg) (simp_all add: handleMessage_def preserved_refl preserved_emit preserved_close)

lemma channels_set_fields:
  "channels_set mx k v = Some mx' \<Longrightarrow> m_socket mx' = m_socket mx \<and> pending mx' = pending mx"
  by (auto simp: channels_set_def split: if_splits option.splits)

lemma preserved_set_muxer:
  assumes "m_socket mx = m_socket (muxers w ! m)" "pending mx = pending (muxers w ! m)"
  shows "preserved w (w\<lparr>muxers := (muxers w)[m := mx]\<rparr>)"
proof -
  have "m_socket ((muxers w)[m := mx] ! j) = m_socket (muxers w ! j)
      \<and> pending ((muxers w)[m := mx] ! j) = pending (muxers w ! j)" if "j < length (muxers w)" for j
    using that assms by (cases "m = j") auto
  then show ?thesis by (auto simp: preserved_def)
qed

lemma preserved_channels_set:
  "channels_set (muxers w ! m) k v = Some mx \<Longrightarrow> preserved w (w\<lparr>muxers := (muxers w)[m := mx]\<rparr>)"
  by (rule preserved_set_muxer) (simp_all add: channels_set_fields)

lemma preserved_addChannel: "preserved w (state_of (addChannel m sock c w))"
proof (cases sock)
  case None
  then show ?thesis by (simp add: addChannel_def preserved_refl)
next
  case (Some sid)
  let ?w1 = "w\<lparr>socks := (socks w)[sid := (socks w ! sid)
                      \<lparr>s_channel := Some c, s_close := ChannelClose m False\<rparr>]\<rparr>"
  have p1: "preserved w ?w1" by (rule preserved_add_close)
  show ?thesis
  proof (cases "channels_set (muxers ?w1 ! m) (key_of (s_channel (socks ?w1 ! sid))) (Some sid)")
    case None
    with Some p1 show ?thesis by (simp add: addChannel_def Let_def)
  next
    case (Some mx)
    from preserved_channels_set [OF this] p1
    have "preserved w (?w1\<lparr>muxers := (muxers ?w1)[m := mx]\<rparr>)" by (rule preserved_trans [rotated])
    with Some \<open>sock = Some sid\<close> show ?thesis by (simp add: addChannel_def Let_def)
  qed
qed

lemma preserved_forEach_close: "preserved w (state_of (forEach_close vs c r w))"
proof (induction vs c r w rule: forEach_close.induct)
  case (1 code reason w)
  then show ?case by (simp add: preserved_refl)
next
  case (2 rest code reason w)
  then show ?case by (simp add: preserved_refl)
next
  case (3 sid rest code reason w)
  show ?case
  proof (cases "close sid code reason w")
    case (Returned w')
    with 3 preserved_close [of w sid code reason] show ?thesis
      by (auto intro: preserved_trans)
  next
    case (Thrown e w')
    with preserved_close [of w sid code reason] show ?thesis by simp
  next
    case (Unmodelled w')
    with preserved_close [of w sid code reason] show ?thesis by simp
  qed
qed

lemma preserved_forEach_error: "preserved w (state_of (forEach_error vs w))"
proof (induction vs w rule: forEach_error.induct)
  case (3 sid rest w)
  then show ?case using preserved_emit [of w sid ErrorEvent] by (auto intro: preserved_trans)
qed (simp_all add: preserved_refl)

lemma preserved_onclose: "preserved w (state_of (onclose m c r w))"
  by (simp add: onclose_def preserved_forEach_close)

lemma preserved_onerror: "preserved w (state_of (onerror m w))"
  by (simp add: onerror_def preserved_forEach_error)

lemma preserved_handleChannelMessage: "preserved w (state_of (handleChannelMessage m msg w))"
  by (simp add: handleChannelMessage_def preserved_console_error preserved_handleMessage
      preserved_refl split: lookup.splits)



lemma map_of_obj_set_other: "map_of obj k = Some v \<Longrightarrow> map_of obj k' = None
    \<Longrightarrow> map_of (obj_set obj k' v') k = Some v"
  by (induction obj) (auto split: if_splits)

lemma map_of_obj_set_same: "map_of (obj_set obj k v) k = Some v"
  by (induction obj) auto

lemma preserved_new_MultiplexerClient: "preserved w (snd (new_MultiplexerClient url p w))"
  by (auto simp: new_MultiplexerClient_def Let_def preserved_def nth_append)

lemma set_obj_set: "e \<in> set (obj_set obj k v) \<Longrightarrow> e \<in> set obj \<or> e = (k, v)"
  by (induction obj) (auto split: if_splits)

lemma getMuxer_cases:
  "getMuxer url p w =
     (case map_of (registry w) (pool_key url p) of
        Some m \<Rightarrow> (Own m, w)
      | None \<Rightarrow>
          if pool_key url p \<in> set object_prototype then (Inherited (pool_key url p), w)
          else (Own (fst (new_MultiplexerClient url p w)),
                (snd (new_MultiplexerClient url p w))
                  \<lparr>registry := obj_set (registry (snd (new_MultiplexerClient url p w)))
                     (pool_key url p) (fst (new_MultiplexerClient url p w))\<rparr>))"
  by (simp add: getMuxer_def Let_def obj_get_def split_beta split: option.splits)

lemma preserved_getMuxer: "preserved w (snd (getMuxer url p w))"
proof (cases "map_of (registry w) (pool_key url p)")
  case None
  show ?thesis
  proof (cases "pool_key url p \<in> set object_prototype")
    case True
    with None show ?thesis by (simp add: getMuxer_cases preserved_refl)
  next
    case False
    have "preserved w (snd (new_MultiplexerClient url p w))"
      by (rule preserved_new_MultiplexerClient)
    moreover have "registry (snd (new_MultiplexerClient url p w)) = registry w"
      "calls (snd (new_MultiplexerClient url p w)) = calls w"
      by (simp_all add: new_MultiplexerClient_def Let_def)
    moreover have "fst (new_MultiplexerClient url p w) < length (muxers (snd (new_MultiplexerClient url p w)))"
      by (simp add: new_MultiplexerClient_def Let_def)
    ultimately show ?thesis
      using None False
      by (auto simp: getMuxer_cases preserved_def intro: map_of_obj_set_other dest!: set_obj_set)
  qed
next
  case (Some m)
  then show ?thesis by (simp add: getMuxer_cases preserved_refl)
qed

lemma upd_pending_nth:
  "j < length xs \<Longrightarrow>
   pending (xs[i := (xs ! i)\<lparr>pending := q\<rparr>] ! j) = (if i = j then q else pending (xs ! j))"
  by (cases "i = j") auto

lemma preserved_pending_upd:
  "pending (muxers w ! m) \<noteq> None \<Longrightarrow>
   preserved w (w\<lparr>muxers := (muxers w)[m := (muxers w ! m)\<lparr>pending := q\<rparr>]\<rparr>)"
  by (auto simp: preserved_def upd_pending_m_socket upd_pending_nth)

lemma preserved_pending_None:
  "preserved w (w\<lparr>muxers := (muxers w)[m := (muxers w ! m)\<lparr>pending := None\<rparr>]\<rparr>)"
  by (auto simp: preserved_def upd_pending_m_socket upd_pending_nth)

lemma preserved_connect_tail:
  "preserved w
     (case pending (muxers w ! m) of
        None \<Rightarrow> socket_send k json w
      | Some q \<Rightarrow> w\<lparr>muxers := (muxers w)[m := (muxers w ! m)\<lparr>pending := Some (q @ [json])\<rparr>]\<rparr>)"
  by (cases "pending (muxers w ! m)") (simp_all add: preserved_socket_send preserved_pending_upd)

lemma preserved_connect: "preserved w (connect m sid ds w)"
proof -
  let ?w1 = "set_channels m (obj_set (channels (muxers w ! m)) (randomId ds) (Some sid)) w"
  let ?w2 = "?w1\<lparr>socks := (socks ?w1)[sid := (socks ?w1 ! sid)\<lparr>s_close := TempClose m (randomId ds)\<rparr>]\<rparr>"
  have 1: "preserved w ?w2"
    by (rule preserved_trans [OF preserved_set_channels preserved_set_close]) simp
  have 2: "preserved ?w2 (connect m sid ds w)"
    unfolding connect_def Let_def by (rule preserved_connect_tail)
  from 1 2 show ?thesis by (rule preserved_trans)
qed

lemma connect_not_base:
  "sid < length (socks w) \<Longrightarrow>
   s_close (socks (connect m sid ds w) ! sid) = TempClose m (randomId ds)"
  unfolding connect_def Let_def
  by (cases "pending (muxers (set_channels m
          (obj_set (channels (muxers w ! m)) (randomId ds) (Some sid)) w) ! m)")
     (simp_all add: set_channels_def socket_send_def)

lemma connect_socks_length: "length (socks (connect m sid ds w)) = length (socks w)"
  unfolding connect_def Let_def
  by (cases "pending (muxers (set_channels m
          (obj_set (channels (muxers w ! m)) (randomId ds) (Some sid)) w) ! m)")
     (simp_all add: set_channels_def socket_send_def)

lemma connect_other_close:
  "j \<noteq> sid \<Longrightarrow> s_close (socks (connect m sid ds w) ! j) = s_close (socks w ! j)"
  unfolding connect_def Let_def
  by (cases "pending (muxers (set_channels m
          (obj_set (channels (muxers w ! m)) (randomId ds) (Some sid)) w) ! m)")
     (simp_all add: set_channels_def socket_send_def)

text \<open>The constructor either throws, or the pool gave a client and \<^verbatim>\<open>connect\<close> ran.\<close>

lemma new_MultiplexSocket_Inr:
  assumes "new_MultiplexSocket url p ds w = Inr (sid, w')"
  shows "\<exists>m w1. getMuxer (base_url url) p w = (Own m, w1) \<and> sid = length (socks w)
     \<and> w' = connect m (length (socks w)) ds
          (w1\<lparr>socks := socks w1 @
             [\<lparr>s_socket = m_socket (muxers w1 ! m), s_channel = None, s_url = url,
               s_close = BaseClose, s_events = []\<rparr>]\<rparr>)"
proof -
  obtain mx w1 where g: "getMuxer (base_url url) p w = (mx, w1)"
    by (cases "getMuxer (base_url url) p w")
  with assms show ?thesis
    by (cases mx) (auto simp: new_MultiplexSocket_def Let_def)
qed

lemma getMuxer_socks: "socks (snd (getMuxer url p w)) = socks w"
  by (simp add: getMuxer_cases new_MultiplexerClient_def Let_def split: option.splits)

lemma preserved_new_MultiplexSocket:
  assumes r: "new_MultiplexSocket url p ds w = Inr (sid, w')"
  shows "preserved w w'"
proof -
  from new_MultiplexSocket_Inr [OF r] obtain m w1 where
    g: "getMuxer (base_url url) p w = (Own m, w1)"
    and w': "w' = connect m (length (socks w)) ds
          (w1\<lparr>socks := socks w1 @
             [\<lparr>s_socket = m_socket (muxers w1 ! m), s_channel = None, s_url = url,
               s_close = BaseClose, s_events = []\<rparr>]\<rparr>)"
    by blast
  let ?w2 = "w1\<lparr>socks := socks w1 @
                   [\<lparr>s_socket = m_socket (muxers w1 ! m), s_channel = None, s_url = url,
                     s_close = BaseClose, s_events = []\<rparr>]\<rparr>"
  let ?w3 = "connect m (length (socks w)) ds ?w2"
  have p1: "preserved w w1" using preserved_getMuxer [of w "base_url url" p] g by simp
  have len: "length (socks w1) = length (socks w)"
    using getMuxer_socks [of "base_url url" p w] g by simp
  have p23: "preserved ?w2 ?w3" by (rule preserved_connect)
  have new: "s_close (socks ?w3 ! length (socks w)) = TempClose m (randomId ds)"
    by (rule connect_not_base) (simp add: len)
  have l3: "length (socks ?w3) = Suc (length (socks w))"
    by (simp add: connect_socks_length len)
  have old: "s_close (socks ?w3 ! j) = s_close (socks w1 ! j)" if "j < length (socks w)" for j
    using that by (simp add: connect_other_close nth_append len)
  have p13: "preserved w1 ?w3"
    unfolding preserved_def
  proof (intro conjI allI impI)
    fix sid assume "sid < length (socks ?w3)" "s_close (socks ?w3 ! sid) = BaseClose"
    with new old l3 len show "sid < length (socks w1)" "s_close (socks w1 ! sid) = BaseClose"
      by (cases "sid = length (socks w)"; simp add: less_Suc_eq)+
  qed (use p23 in \<open>auto simp: preserved_def\<close>)
  from preserved_trans [OF p1 p13] w' show ?thesis by simp
qed

lemma preserved_foldl_send:
  "preserved w (foldl (\<lambda>w' json. socket_send (k w') json w') w q)"
proof (induction q arbitrary: w)
  case Nil
  show ?case by (simp add: preserved_refl)
next
  case (Cons f q)
  show ?case
    using preserved_trans [OF preserved_socket_send Cons [of "socket_send (k w) f w"]]
    by simp
qed

lemma preserved_client_onopen: "preserved w (client_onopen m w)"
  unfolding client_onopen_def Let_def
  by (cases "pending (muxers w ! m)")
     (auto intro!: preserved_trans [OF _ preserved_pending_None] preserved_refl
        preserved_foldl_send)

lemma preserved_open_with: "preserved w (state_of (open_with m channel ref sock w))"
proof (cases "channels_set (muxers w ! m) channel sock")
  case None
  then show ?thesis by (simp add: open_with_def preserved_refl)
next
  case (Some mx)
  let ?w1 = "w\<lparr>muxers := (muxers w)[m := mx]\<rparr>"
  let ?w2 = "set_channels m (obj_delete (channels (muxers ?w1 ! m)) ref) ?w1"
  have p2: "preserved w ?w2"
    by (rule preserved_trans [OF preserved_channels_set [OF Some] preserved_set_channels])
  have p3: "preserved ?w2 (state_of (addChannel m sock channel ?w2))"
    by (rule preserved_addChannel)
  from p2 p3 have p: "preserved w (state_of (addChannel m sock channel ?w2))"
    by (rule preserved_trans)
  show ?thesis
  proof (cases "addChannel m sock channel ?w2")
    case (Returned w3)
    with p have "preserved w w3" by simp
    with Returned Some show ?thesis
      by (auto simp: open_with_def Let_def split: option.splits
          intro: preserved_trans [OF _ preserved_emit])
  next
    case (Thrown e w3)
    with p Some show ?thesis by (simp add: open_with_def Let_def)
  next
    case (Unmodelled w3)
    with p Some show ?thesis by (simp add: open_with_def Let_def)
  qed
qed

lemma preserved_handleOpenMessage: "preserved w (state_of (handleOpenMessage m msg w))"
  by (cases msg)
     (simp_all add: handleOpenMessage_def preserved_console_error preserved_open_with
        preserved_refl split: lookup.splits)

lemma preserved_catch_log: "preserved w (state_of r) \<Longrightarrow> preserved w (state_of (catch_log r))"
  by (cases r) (auto simp: catch_log_def intro: preserved_trans [OF _ preserved_console_error])

lemma preserved_client_onmessage: "preserved w (state_of (client_onmessage m r w))"
  by (cases r)
     (auto simp: client_onmessage_def preserved_console_error
        intro!: preserved_catch_log preserved_handleOpenMessage preserved_handleChannelMessage)

text \<open>What \<^verbatim>\<open>addChannel\<close> leaves behind for a socket, whether its last assignment throws or not.\<close>

lemma addChannel_state:
  "\<exists>w'. (addChannel m (Some sid) c w = Returned w' \<or> addChannel m (Some sid) c w = Thrown TypeError w')
     \<and> socks w' = (socks w)[sid := (socks w ! sid)
                      \<lparr>s_channel := Some c, s_close := ChannelClose m False\<rparr>]
     \<and> sockets w' = sockets w \<and> registry w' = registry w \<and> calls w' = calls w
     \<and> length (muxers w') = length (muxers w)
     \<and> (\<forall>j < length (muxers w). m_socket (muxers w' ! j) = m_socket (muxers w ! j)
            \<and> pending (muxers w' ! j) = pending (muxers w ! j))"
proof -
  let ?w1 = "w\<lparr>socks := (socks w)[sid := (socks w ! sid)
                      \<lparr>s_channel := Some c, s_close := ChannelClose m False\<rparr>]\<rparr>"
  show ?thesis
  proof (cases "channels_set (muxers ?w1 ! m) (key_of (s_channel (socks ?w1 ! sid))) (Some sid)")
    case None
    then have "addChannel m (Some sid) c w = Thrown TypeError ?w1"
      by (simp add: addChannel_def Let_def)
    then show ?thesis by (intro exI [of _ ?w1]) simp
  next
    case (Some mx)
    then have r: "addChannel m (Some sid) c w = Returned (?w1\<lparr>muxers := (muxers ?w1)[m := mx]\<rparr>)"
      by (simp add: addChannel_def Let_def)
    from channels_set_fields [OF Some]
    have f: "m_socket mx = m_socket (muxers w ! m)" "pending mx = pending (muxers w ! m)"
      by simp_all
    have "m_socket ((muxers w)[m := mx] ! j) = m_socket (muxers w ! j)
        \<and> pending ((muxers w)[m := mx] ! j) = pending (muxers w ! j)"
      if "j < length (muxers w)" for j
      using that f by (cases "m = j") auto
    with r show ?thesis
      by (intro exI [of _ "?w1\<lparr>muxers := (muxers ?w1)[m := mx]\<rparr>"]) simp
  qed
qed

lemma connect_with_state:
  "\<exists>w' ev cs.
     state_of (connect_with m backend ref k ds w) = w'
     \<and> socks w' = socks w @ [\<lparr>s_socket = k, s_channel = Some (randomId ds),
           s_url = ws_url (sockets w ! k), s_close = ChannelClose m False, s_events = ev\<rparr>]
     \<and> calls w' = calls w @ cs
     \<and> (\<forall>c \<in> set cs. c = (backend, length (socks w),
           \<lparr>s_socket = k, s_channel = Some (randomId ds), s_url = ws_url (sockets w ! k),
            s_close = ChannelClose m False, s_events = []\<rparr>))
     \<and> registry w' = registry w
     \<and> length (sockets w') = length (sockets w)
     \<and> length (muxers w') = length (muxers w)
     \<and> (\<forall>j < length (muxers w). m_socket (muxers w' ! j) = m_socket (muxers w ! j)
            \<and> pending (muxers w' ! j) = pending (muxers w ! j))"
proof -
  let ?w1 = "socket_send k (Open (randomId ds) ref) w"
  let ?sid = "length (socks w)"
  let ?w2 = "?w1\<lparr>socks := socks ?w1 @
                 [\<lparr>s_socket = k, s_channel = None, s_url = ws_url (sockets ?w1 ! k),
                   s_close = BaseClose, s_events = []\<rparr>]\<rparr>"
  have s1: "socks ?w1 = socks w" "muxers ?w1 = muxers w" "registry ?w1 = registry w"
    "calls ?w1 = calls w" "length (sockets ?w1) = length (sockets w)"
    "ws_url (sockets ?w1 ! k) = ws_url (sockets w ! k)"
    by (simp_all add: socket_send_def upd_sent_ws_url)
  from addChannel_state [of m ?sid "randomId ds" ?w2] obtain w3 where
    a: "addChannel m (Some ?sid) (randomId ds) ?w2 = Returned w3
        \<or> addChannel m (Some ?sid) (randomId ds) ?w2 = Thrown TypeError w3"
    and so: "socks w3 = (socks ?w2)[?sid := (socks ?w2 ! ?sid)
                      \<lparr>s_channel := Some (randomId ds), s_close := ChannelClose m False\<rparr>]"
    and rest: "sockets w3 = sockets ?w2" "registry w3 = registry ?w2" "calls w3 = calls ?w2"
      "length (muxers w3) = length (muxers ?w2)"
      "\<forall>j < length (muxers ?w2). m_socket (muxers w3 ! j) = m_socket (muxers ?w2 ! j)
            \<and> pending (muxers w3 ! j) = pending (muxers ?w2 ! j)"
    by blast
  have so': "socks w3 = socks w @ [\<lparr>s_socket = k, s_channel = Some (randomId ds),
           s_url = ws_url (sockets w ! k), s_close = ChannelClose m False, s_events = []\<rparr>]"
    using so s1 by simp
  from a show ?thesis
  proof
    assume t: "addChannel m (Some ?sid) (randomId ds) ?w2 = Thrown TypeError w3"
    then have "state_of (connect_with m backend ref k ds w) = w3"
      by (simp add: connect_with_def Let_def s1)
    with so' rest s1 show ?thesis
      by (intro exI [of _ w3] exI [of _ "[]"] exI [of _ "[]"]) simp
  next
    assume r: "addChannel m (Some ?sid) (randomId ds) ?w2 = Returned w3"
    let ?cs = "if is_called backend then [(backend, ?sid, socks w3 ! ?sid)] else []"
    let ?w4 = "if is_called backend
               then w3\<lparr>calls := calls w3 @ [(backend, ?sid, socks w3 ! ?sid)]\<rparr> else w3"
    let ?ev = "if call_returns backend then [OpenEvent] else []"
    let ?w5 = "if call_returns backend then emit ?sid OpenEvent ?w4 else ?w4"
    have st: "state_of (connect_with m backend ref k ds w) = ?w5"
      using r by (simp add: connect_with_def Let_def s1)
    have snap: "socks w3 ! ?sid = \<lparr>s_socket = k, s_channel = Some (randomId ds),
           s_url = ws_url (sockets w ! k), s_close = ChannelClose m False, s_events = []\<rparr>"
      by (simp add: so')
    have socks5: "socks ?w5 = socks w @ [\<lparr>s_socket = k, s_channel = Some (randomId ds),
           s_url = ws_url (sockets w ! k), s_close = ChannelClose m False, s_events = ?ev\<rparr>]"
      by (simp add: emit_def so')
    have calls5: "calls ?w5 = calls w @ ?cs"
      using rest s1 by (simp add: emit_def)
    have other: "registry ?w5 = registry w" "length (sockets ?w5) = length (sockets w)"
      "length (muxers ?w5) = length (muxers w)"
      "\<forall>j < length (muxers w). m_socket (muxers ?w5 ! j) = m_socket (muxers w ! j)
            \<and> pending (muxers ?w5 ! j) = pending (muxers w ! j)"
      using rest s1 by (simp_all add: emit_def)
    show ?thesis
      apply (intro exI [of _ ?w5] exI [of _ ?ev] exI [of _ ?cs])
      using st socks5 calls5 other snap apply simp
      done
  qed
qed

lemma preserved_connect_with: "preserved w (state_of (connect_with m backend ref k ds w))"
proof -
  from connect_with_state [of m backend ref k ds w] obtain w' ev cs where
    st: "state_of (connect_with m backend ref k ds w) = w'"
    and so: "socks w' = socks w @ [\<lparr>s_socket = k, s_channel = Some (randomId ds),
           s_url = ws_url (sockets w ! k), s_close = ChannelClose m False, s_events = ev\<rparr>]"
    and ca: "calls w' = calls w @ cs"
      "\<forall>c \<in> set cs. c = (backend, length (socks w),
           \<lparr>s_socket = k, s_channel = Some (randomId ds), s_url = ws_url (sockets w ! k),
            s_close = ChannelClose m False, s_events = []\<rparr>)"
    and rest: "registry w' = registry w" "length (sockets w') = length (sockets w)"
      "length (muxers w') = length (muxers w)"
      "\<forall>j < length (muxers w). m_socket (muxers w' ! j) = m_socket (muxers w ! j)
            \<and> pending (muxers w' ! j) = pending (muxers w ! j)"
    by blast
  have "preserved w w'"
    unfolding preserved_def using so ca rest
    by (auto simp: nth_append)
  with st show ?thesis by simp
qed

lemma preserved_handleConnectMessage:
  "preserved w (state_of (handleConnectMessage m msg k ds w))"
  by (cases msg)
     (simp_all add: handleConnectMessage_def preserved_console_error preserved_connect_with
        split: lookup.splits)

lemma preserved_server_onmessage: "preserved w (state_of (server_onmessage m k r ds w))"
  by (cases r)
     (auto simp: server_onmessage_def preserved_console_error
        intro!: preserved_catch_log preserved_handleConnectMessage preserved_handleChannelMessage)

lemma preserved_new_MultiplexerServer: "preserved w (snd (new_MultiplexerServer table w))"
  by (auto simp: new_MultiplexerServer_def preserved_def nth_append)

lemma preserved_on_connection: "preserved w (snd (on_connection m w))"
  by (auto simp: on_connection_def preserved_def)

lemma preserved_step_outcome: "preserved w (state_of (step_outcome x w))"
proof (cases x)
  case (NewMultiplexSocket url p ds)
  show ?thesis
  proof (cases "new_MultiplexSocket url p ds w")
    case (Inl e)
    with NewMultiplexSocket show ?thesis by (simp add: step_outcome_def preserved_refl)
  next
    case (Inr r)
    then have "new_MultiplexSocket url p ds w = Inr (fst r, snd r)" by simp
    from preserved_new_MultiplexSocket [OF this] Inr NewMultiplexSocket show ?thesis
      by (simp add: step_outcome_def)
  qed
next
  case (TransportOpen k)
  then show ?thesis
    by (auto simp: step_outcome_def preserved_refl preserved_set_readyState split: handlers.splits
        intro: preserved_trans [OF preserved_set_readyState preserved_client_onopen])
next
  case (TransportClose k c r)
  then show ?thesis
    by (auto simp: step_outcome_def preserved_refl preserved_set_readyState split: handlers.splits
        intro: preserved_trans [OF preserved_set_readyState preserved_onclose])
qed (auto simp: step_outcome_def preserved_refl
      preserved_new_MultiplexerServer preserved_on_connection preserved_send preserved_close
      preserved_client_onmessage preserved_server_onmessage preserved_onerror
      split: handlers.splits)

lemma preserved_step: "preserved w (step x w)"
  by (simp add: step_def preserved_step_outcome)

lemma preserved_run: "preserved w (run xs w)"
proof (induction xs arbitrary: w)
  case Nil
  show ?case by (simp add: preserved_refl)
next
  case (Cons x xs)
  show ?case
  proof (cases "step_outcome x w")
    case (Returned w')
    with preserved_step_outcome [of w x] Cons [of w'] show ?thesis
      by (auto intro: preserved_trans)
  next
    case (Thrown e w')
    with preserved_step_outcome [of w x] Cons [of w'] show ?thesis
      by (auto intro: preserved_trans)
  next
    case (Unmodelled w')
    with preserved_step_outcome [of w x] show ?thesis by simp
  qed
qed

lemma pool_wf_reachable: "pool_wf (run ops empty_world)"
  using preserved_run [of empty_world ops]
  by (auto simp: preserved_def pool_wf_def empty_world_def)

section \<open>The client pool\<close>

lemma getMuxer_result:
  assumes wf: "pool_wf w" and g: "getMuxer url p w = (Own c, w1)"
  shows "map_of (registry w1) (pool_key url p) = Some c \<and> c < length (muxers w1)
     \<and> socks w1 = socks w"
proof (cases "map_of (registry w) (pool_key url p)")
  case None
  with g show ?thesis
    by (auto simp: getMuxer_cases Let_def new_MultiplexerClient_def map_of_obj_set_same
        split: if_splits)
next
  case (Some m)
  then have "(pool_key url p, m) \<in> set (registry w)" by (rule map_of_SomeD)
  then have "m \<in> snd ` set (registry w)" by force
  with wf have "m < length (muxers w)" by (auto simp: pool_wf_def)
  with Some g show ?thesis by (auto simp: getMuxer_cases)
qed

lemma getMuxer_found:
  "map_of (registry w) (pool_key url p) = Some c \<Longrightarrow> getMuxer url p w = (Own c, w)"
  by (simp add: getMuxer_cases)

lemma connect_s_socket: "s_socket (socks (connect m sid ds w) ! j) = s_socket (socks w ! j)"
proof -
  have "s_socket (xs[sid := (xs ! sid)\<lparr>s_close := c\<rparr>] ! j) = s_socket (xs ! j)" for xs c
    by (cases "sid < length xs") (auto simp: nth_list_update list_update_beyond not_less)
  then show ?thesis
    unfolding connect_def Let_def
    by (cases "pending (muxers (set_channels m
            (obj_set (channels (muxers w ! m)) (randomId ds) (Some sid)) w) ! m)")
       (simp_all add: set_channels_def socket_send_def)
qed

lemma connect_lengths:
  "length (sockets (connect m sid ds w)) = length (sockets w)"
  "length (muxers (connect m sid ds w)) = length (muxers w)"
  unfolding connect_def Let_def
  by (cases "pending (muxers (set_channels m
          (obj_set (channels (muxers w ! m)) (randomId ds) (Some sid)) w) ! m)";
      simp add: set_channels_def socket_send_def)+

lemma new_MultiplexSocket_found:
  assumes "map_of (registry w) (pool_key (base_url url) p) = Some c"
  shows "\<exists>w'. new_MultiplexSocket url p ds w = Inr (length (socks w), w')
    \<and> s_socket (socks w' ! length (socks w)) = m_socket (muxers w ! c)
    \<and> s_close (socks w' ! length (socks w)) = TempClose c (randomId ds)
    \<and> length (sockets w') = length (sockets w)
    \<and> length (muxers w') = length (muxers w)"
proof -
  let ?w2 = "w\<lparr>socks := socks w @
                   [\<lparr>s_socket = m_socket (muxers w ! c), s_channel = None, s_url = url,
                     s_close = BaseClose, s_events = []\<rparr>]\<rparr>"
  have r: "new_MultiplexSocket url p ds w
      = Inr (length (socks w), connect c (length (socks w)) ds ?w2)"
    by (simp add: new_MultiplexSocket_def Let_def getMuxer_found [OF assms])
  show ?thesis
    by (intro exI [of _ "connect c (length (socks w)) ds ?w2"])
       (simp add: r connect_s_socket connect_not_base connect_lengths)
qed

text \<open>
  C9. An entry of the client pool stays: after any sequence of operations and
  transport events (closes and errors of the client's physical socket
  included) the key still maps to the same client, \<^verbatim>\<open>getMuxer\<close> for that key
  returns it without changing the world, and a \<^verbatim>\<open>new MultiplexSocket\<close> whose base
  URL and protocols give that key returns a socket connected through that
  client. The sequence is taken as \<open>run\<close> takes it: up to its end, or up to an
  operation that writes to a built-in object or reads through a socket that
  has become the prototype of a registry.
\<close>

theorem pool_entry_persists:
  assumes "map_of (registry w) (pool_key url p) = Some c"
  shows "map_of (registry (run ops w)) (pool_key url p) = Some c
     \<and> getMuxer url p (run ops w) = (Own c, run ops w)
     \<and> (pool_key (base_url u) p' = pool_key url p \<longrightarrow>
          (\<exists>sid w'. new_MultiplexSocket u p' ds (run ops w) = Inr (sid, w')
             \<and> s_close (socks w' ! sid) = TempClose c (randomId ds)))"
proof -
  from preserved_run [of w ops] assms
  have reg: "map_of (registry (run ops w)) (pool_key url p) = Some c"
    by (simp add: preserved_def)
  have "\<exists>sid w'. new_MultiplexSocket u p' ds (run ops w) = Inr (sid, w')
             \<and> s_close (socks w' ! sid) = TempClose c (randomId ds)"
    if "pool_key (base_url u) p' = pool_key url p"
  proof -
    from that reg have "map_of (registry (run ops w)) (pool_key (base_url u) p') = Some c"
      by simp
    from new_MultiplexSocket_found [where ds = ds, OF this] show ?thesis by blast
  qed
  with reg show ?thesis by (simp add: getMuxer_found)
qed

theorem pool_entry_persists_witness:
  "map_of (registry (run [TransportOpen 0, TransportError 0, TransportClose 0 (Some 1006) None]
       client_demo)) ''ws://host'' = Some 0
   \<and> (\<exists>sid w'. new_MultiplexSocket ''ws://host/chat'' None [27, 2]
         (run [TransportOpen 0, TransportError 0, TransportClose 0 (Some 1006) None] client_demo)
           = Inr (sid, w')
        \<and> s_close (socks w' ! sid) = TempClose 0 ''r2'')"
proof -
  have h: "map_of (registry client_demo) (pool_key ''ws://host'' None) = Some 0"
    by (simp add: client_demo_eval pool_key_def protocols_string_def)
  have k: "pool_key (base_url ''ws://host/chat'') None = pool_key ''ws://host'' None"
    by code_simp
  have k2: "pool_key ''ws://host'' None = ''ws://host''"
    by (simp add: pool_key_def protocols_string_def)
  have r: "randomId [27, 2] = ''r2''" by code_simp
  from pool_entry_persists [OF h,
      of "[TransportOpen 0, TransportError 0, TransportClose 0 (Some 1006) None]"
         "''ws://host/chat''" None "[27, 2]"] k k2 r
  show ?thesis by simp
qed

text \<open>
  When the first request returns, a second request with the same base URL and
  the same protocols, after any operations and transport events, returns a
  socket with the physical socket of the first, bound to the same pooled client,
  and creates no physical socket and no multiplexer.
\<close>

lemma second_request_reuses_connection:
  assumes wf: "pool_wf w" and base: "base_url url2 = base_url url1"
    and r1: "new_MultiplexSocket url1 p ds1 w = Inr (s1, w1)"
  shows "\<exists>s2 w2 c. new_MultiplexSocket url2 p ds2 (run ops w1) = Inr (s2, w2)
     \<and> s_socket (socks w2 ! s2) = s_socket (socks w1 ! s1)
     \<and> length (sockets w2) = length (sockets (run ops w1))
     \<and> length (muxers w2) = length (muxers (run ops w1))
     \<and> s_close (socks w1 ! s1) = TempClose c (randomId ds1)
     \<and> s_close (socks w2 ! s2) = TempClose c (randomId ds2)
     \<and> map_of (registry w2) (pool_key (base_url url1) p) = Some c"
proof -
  from new_MultiplexSocket_Inr [OF r1] obtain c w0 where
    g: "getMuxer (base_url url1) p w = (Own c, w0)" and s1: "s1 = length (socks w)"
    and w1: "w1 = connect c (length (socks w)) ds1
          (w0\<lparr>socks := socks w0 @
             [\<lparr>s_socket = m_socket (muxers w0 ! c), s_channel = None, s_url = url1,
               s_close = BaseClose, s_events = []\<rparr>]\<rparr>)"
    by blast
  from getMuxer_result [OF wf g]
  have reg0: "map_of (registry w0) (pool_key (base_url url1) p) = Some c"
    and c0: "c < length (muxers w0)" and socks0: "socks w0 = socks w"
    by simp_all
  from new_MultiplexSocket_found [where ds = ds1, OF reg0] obtain w1' where
    r1': "new_MultiplexSocket url1 p ds1 w0 = Inr (length (socks w0), w1')"
    and sock1': "s_socket (socks w1' ! length (socks w0)) = m_socket (muxers w0 ! c)"
    and close1': "s_close (socks w1' ! length (socks w0)) = TempClose c (randomId ds1)"
    by blast
  have "w1' = w1"
    using r1' w1 socks0
    by (simp add: new_MultiplexSocket_def Let_def getMuxer_found [OF reg0])
  with sock1' close1' s1 socks0
  have sock1: "s_socket (socks w1 ! s1) = m_socket (muxers w0 ! c)"
    and close1: "s_close (socks w1 ! s1) = TempClose c (randomId ds1)"
    by simp_all
  have p01: "preserved w0 w1"
    using preserved_new_MultiplexSocket [of url1 p ds1 w0 "length (socks w0)" w1'] r1' \<open>w1' = w1\<close>
    by simp
  have p0m: "preserved w0 (run ops w1)"
    by (rule preserved_trans [OF p01 preserved_run])
  from p0m reg0 c0
  have regm: "map_of (registry (run ops w1)) (pool_key (base_url url1) p) = Some c"
    and sockm: "m_socket (muxers (run ops w1) ! c) = m_socket (muxers w0 ! c)"
    by (simp_all add: preserved_def)
  from regm base have regm2: "map_of (registry (run ops w1)) (pool_key (base_url url2) p) = Some c"
    by simp
  from new_MultiplexSocket_found [where ds = ds2, OF regm2] obtain w2 where
    r2: "new_MultiplexSocket url2 p ds2 (run ops w1) = Inr (length (socks (run ops w1)), w2)"
    and s2: "s_socket (socks w2 ! length (socks (run ops w1))) = m_socket (muxers (run ops w1) ! c)"
      "s_close (socks w2 ! length (socks (run ops w1))) = TempClose c (randomId ds2)"
      "length (sockets w2) = length (sockets (run ops w1))"
      "length (muxers w2) = length (muxers (run ops w1))"
    by blast
  have "preserved (run ops w1) w2"
    by (rule preserved_new_MultiplexSocket [OF r2])
  with regm have "map_of (registry w2) (pool_key (base_url url1) p) = Some c"
    by (simp add: preserved_def)
  with r2 s2 sock1 sockm close1 show ?thesis by auto
qed

text \<open>
  C6. The pool is a plain object, and \<^verbatim>\<open>getMuxer\<close> tests \<^verbatim>\<open>registry[id]\<close> for
  truthiness. Two requests \<^verbatim>\<open>new MultiplexSocket("/echo", "constructor")\<close> and
  \<^verbatim>\<open>new MultiplexSocket("/chat", "constructor")\<close> have the same base URL (the empty
  string) and the same protocol, and the key "constructor". In a fresh process
  \<^verbatim>\<open>getMuxer\<close> finds the inherited \<^verbatim>\<open>Object.prototype.constructor\<close>, creates no
  client and returns that function; the first request throws a TypeError, and
  so does the second: there is no pooled client and no physical connection for
  the second request to reuse, and the pool stays empty.
\<close>

theorem inherited_pool_key_gives_no_client:
  "base_url ''/echo'' = base_url ''/chat''
   \<and> getMuxer (base_url ''/echo'') (Some (PString ''constructor'')) empty_world
       = (Inherited ''constructor'', empty_world)
   \<and> new_MultiplexSocket ''/echo'' (Some (PString ''constructor'')) [27, 1] empty_world
       = Inl TypeError
   \<and> step (NewMultiplexSocket ''/echo'' (Some (PString ''constructor'')) [27, 1]) empty_world
       = empty_world
   \<and> new_MultiplexSocket ''/chat'' (Some (PString ''constructor'')) [27, 2]
        (step (NewMultiplexSocket ''/echo'' (Some (PString ''constructor'')) [27, 1]) empty_world)
       = Inl TypeError
   \<and> registry (run [NewMultiplexSocket ''/echo'' (Some (PString ''constructor'')) [27, 1],
                    NewMultiplexSocket ''/chat'' (Some (PString ''constructor'')) [27, 2]]
          empty_world) = []"
  by code_simp

section \<open>The pending queue and the base close\<close>

lemma upd_close_url: "s_url (xs[i := (xs ! i)\<lparr>s_close := c\<rparr>] ! j) = s_url (xs ! j)"
  by (cases "i < length xs") (auto simp: nth_list_update list_update_beyond not_less)

lemma connect_queued:
  assumes m: "m < length (muxers w)" and q: "pending (muxers w ! m) = Some q"
  shows "sockets (connect m sid ds w) = sockets w
    \<and> pending (muxers (connect m sid ds w) ! m) = Some (q @ [connect_frame w (sid, ds)])
    \<and> length (muxers (connect m sid ds w)) = length (muxers w)
    \<and> (\<forall>j. s_url (socks (connect m sid ds w) ! j) = s_url (socks w ! j))"
  using assms
  by (simp add: connect_def Let_def set_channels_def connect_frame_def upd_close_url)

lemma connect_immediate:
  assumes m: "m < length (muxers w)" and q: "pending (muxers w ! m) = None"
  shows "connect m sid ds w =
     socket_send (m_socket (muxers w ! m)) (connect_frame w (sid, ds))
       (w\<lparr>muxers := (muxers w)[m := (muxers w ! m)
             \<lparr>channels := obj_set (channels (muxers w ! m)) (randomId ds) (Some sid)\<rparr>],
           socks := (socks w)[sid := (socks w ! sid)\<lparr>s_close := TempClose m (randomId ds)\<rparr>]\<rparr>)"
  using assms
  by (simp add: connect_def Let_def set_channels_def connect_frame_def upd_close_url)

lemma connects_queued:
  assumes m: "m < length (muxers w)" and q: "pending (muxers w ! m) = Some q"
  shows "sockets (connects m rs w) = sockets w
    \<and> pending (muxers (connects m rs w) ! m) = Some (q @ map (connect_frame w) rs)
    \<and> length (muxers (connects m rs w)) = length (muxers w)"
  using assms
proof (induction rs arbitrary: w q)
  case Nil
  then show ?case by simp
next
  case (Cons r rs)
  obtain sid ds where r: "r = (sid, ds)" by (cases r)
  let ?w = "connect m sid ds w"
  from connect_queued [OF Cons.prems, of sid ds]
  have s: "sockets ?w = sockets w"
    and p: "pending (muxers ?w ! m) = Some (q @ [connect_frame w (sid, ds)])"
    and l: "length (muxers ?w) = length (muxers w)"
    and u: "\<And>j. s_url (socks ?w ! j) = s_url (socks w ! j)"
    by simp_all
  from l Cons.prems have m': "m < length (muxers ?w)" by simp
  have fr: "connect_frame ?w = connect_frame w"
    by (rule ext) (simp add: connect_frame_def u)
  from Cons.IH [OF m' p] s l fr show ?case by (simp add: r)
qed

lemma foldl_send:
  "muxers (foldl (\<lambda>w' json. socket_send (m_socket (muxers w' ! m)) json w') w q) = muxers w
   \<and> sockets (foldl (\<lambda>w' json. socket_send (m_socket (muxers w' ! m)) json w') w q) =
     (sockets w)[m_socket (muxers w ! m) :=
        (sockets w ! m_socket (muxers w ! m))
          \<lparr>sent := sent (sockets w ! m_socket (muxers w ! m)) @ q\<rparr>]"
proof (induction q arbitrary: w)
  case Nil
  show ?case by simp
next
  case (Cons f q)
  let ?k = "m_socket (muxers w ! m)"
  have mux: "muxers (socket_send ?k f w) = muxers w" by (simp add: socket_send_def)
  show ?case
  proof (cases "?k < length (sockets w)")
    case True
    with Cons [of "socket_send ?k f w"] mux show ?thesis
      by (simp add: socket_send_def)
  next
    case False
    with Cons [of "socket_send ?k f w"] mux show ?thesis
      by (simp add: socket_send_def list_update_beyond not_less)
  qed
qed

lemma client_onopen_flush:
  assumes m: "m < length (muxers w)" and q: "pending (muxers w ! m) = Some q"
  shows "sockets (client_onopen m w) =
     (sockets w)[m_socket (muxers w ! m) :=
        (sockets w ! m_socket (muxers w ! m))
          \<lparr>sent := sent (sockets w ! m_socket (muxers w ! m)) @ q\<rparr>]
    \<and> pending (muxers (client_onopen m w) ! m) = None
    \<and> length (muxers (client_onopen m w)) = length (muxers w)"
  using assms foldl_send [of m w q]
  by (simp add: client_onopen_def Let_def)


lemma preserved_connects: "preserved w (connects m rs w)"
proof (induction rs arbitrary: w)
  case Nil
  show ?case by (simp add: preserved_refl)
next
  case (Cons r rs)
  obtain sid ds where r: "r = (sid, ds)" by (cases r)
  show ?case using preserved_trans [OF preserved_connect Cons] by (simp add: r)
qed

text \<open>
  C7. On a client whose \<^verbatim>\<open>pending\<close> is still a list \<open>q\<close>, any sequence of
  \<^verbatim>\<open>connect\<close> calls hands nothing to the transport and appends its connect frames
  to \<open>q\<close> in call order. \<^verbatim>\<open>onopen\<close> then hands \<open>q\<close> followed by these frames, in
  that order, to the client's physical socket. From then on, whatever happens
  (any operations, as \<open>run\<close> takes them), \<^verbatim>\<open>pending\<close> is \<^verbatim>\<open>undefined\<close> and a
  \<^verbatim>\<open>connect\<close> hands its frame to the transport at once.
\<close>

theorem pending_queue_flushed_in_order:
  assumes m: "m < length (muxers w)" and q: "pending (muxers w ! m) = Some q"
  shows "let w1 = connects m rs w; w2 = client_onopen m w1; w3 = run ops w2;
             k = m_socket (muxers w ! m)
         in sockets w1 = sockets w
          \<and> pending (muxers w1 ! m) = Some (q @ map (connect_frame w) rs)
          \<and> sockets w2 = (sockets w)[k := (sockets w ! k)
                \<lparr>sent := sent (sockets w ! k) @ q @ map (connect_frame w) rs\<rparr>]
          \<and> pending (muxers w3 ! m) = None
          \<and> sockets (connect m sid ds w3) = (sockets w3)[k := (sockets w3 ! k)
                \<lparr>sent := sent (sockets w3 ! k) @ [connect_frame w3 (sid, ds)]\<rparr>]
          \<and> pending (muxers (connect m sid ds w3) ! m) = None"
proof -
  let ?w1 = "connects m rs w"
  let ?w2 = "client_onopen m ?w1"
  let ?w3 = "run ops ?w2"
  let ?k = "m_socket (muxers w ! m)"
  from connects_queued [OF m q, of rs]
  have s1: "sockets ?w1 = sockets w"
    and p1: "pending (muxers ?w1 ! m) = Some (q @ map (connect_frame w) rs)"
    and l1: "length (muxers ?w1) = length (muxers w)"
    by simp_all
  from l1 m have m1: "m < length (muxers ?w1)" by simp
  have k1: "m_socket (muxers ?w1 ! m) = ?k"
    using preserved_connects [of w m rs] m by (simp add: preserved_def)
  from client_onopen_flush [OF m1 p1] s1 k1
  have s2: "sockets ?w2 = (sockets w)[?k := (sockets w ! ?k)
                \<lparr>sent := sent (sockets w ! ?k) @ q @ map (connect_frame w) rs\<rparr>]"
    and p2: "pending (muxers ?w2 ! m) = None"
    and l2: "length (muxers ?w2) = length (muxers ?w1)"
    by simp_all
  from l2 m1 have m2: "m < length (muxers ?w2)" by simp
  have k2: "m_socket (muxers ?w2 ! m) = ?k"
    using preserved_client_onopen [of ?w1 m] m1 k1 by (simp add: preserved_def)
  have p23: "preserved ?w2 ?w3" by (rule preserved_run)
  with m2 p2 k2 have p3: "pending (muxers ?w3 ! m) = None"
    and k3: "m_socket (muxers ?w3 ! m) = ?k" and m3: "m < length (muxers ?w3)"
    by (simp_all add: preserved_def)
  have c3: "sockets (connect m sid ds ?w3) = (sockets ?w3)[?k := (sockets ?w3 ! ?k)
                \<lparr>sent := sent (sockets ?w3 ! ?k) @ [connect_frame ?w3 (sid, ds)]\<rparr>]"
    by (simp add: connect_immediate [OF m3 p3] k3 socket_send_def)
  have p4: "pending (muxers (connect m sid ds ?w3) ! m) = None"
    using preserved_connect [of ?w3 m sid ds] m3 p3 by (simp add: preserved_def)
  show ?thesis
    unfolding Let_def using s1 p1 s2 p3 c3 p4 by blast
qed

theorem pending_queue_flushed_in_order_witness:
  "sockets (connects 0 [(0, [27, 2]), (0, [27, 3])] client_demo) = sockets client_demo
   \<and> pending (muxers (connects 0 [(0, [27, 2]), (0, [27, 3])] client_demo) ! 0)
       = Some [Connect ''r1'' ''ws://host/echo'', Connect ''r2'' ''ws://host/echo'',
               Connect ''r3'' ''ws://host/echo'']
   \<and> sent (sockets (client_onopen 0 (connects 0 [(0, [27, 2]), (0, [27, 3])] client_demo)) ! 0)
       = [Connect ''r1'' ''ws://host/echo'', Connect ''r2'' ''ws://host/echo'',
          Connect ''r3'' ''ws://host/echo'']
   \<and> pending (muxers (run [TransportError 0]
         (client_onopen 0 (connects 0 [(0, [27, 2]), (0, [27, 3])] client_demo))) ! 0) = None"
proof -
  have m: "0 < length (muxers client_demo)" by (simp add: client_demo_eval)
  have q: "pending (muxers client_demo ! 0) = Some [Connect ''r1'' ''ws://host/echo'']"
    by (simp add: client_demo_eval)
  note * = pending_queue_flushed_in_order [OF m q, of "[(0, [27, 2]), (0, [27, 3])]"
      "[TransportError 0]" 0 "[27, 4]"]
  have r: "randomId [27, 2] = ''r2''" "randomId [27, 3] = ''r3''" by code_simp+
  from * show ?thesis by (simp add: Let_def client_demo_eval connect_frame_def r)
qed

lemma channels_set_randomId: "\<exists>mx'. channels_set mx (randomId ds) v = Some mx'"
  by (simp add: channels_set_def randomId_plain)

lemma addChannel_randomId_returns:
  assumes "sid < length (socks w)"
  shows "\<exists>w'. addChannel m (Some sid) (randomId ds) w = Returned w'"
proof -
  let ?w1 = "w\<lparr>socks := (socks w)[sid := (socks w ! sid)
                 \<lparr>s_channel := Some (randomId ds), s_close := ChannelClose m False\<rparr>]\<rparr>"
  have k: "key_of (s_channel (socks ?w1 ! sid)) = randomId ds"
    using assms by (simp add: key_of_def)
  from channels_set_randomId [of "muxers ?w1 ! m" ds "Some sid"] obtain mx where
    "channels_set (muxers ?w1 ! m) (randomId ds) (Some sid) = Some mx" by blast
  with k show ?thesis by (simp add: addChannel_def Let_def)
qed

text \<open>
  A backend of the table is called after \<^verbatim>\<open>addChannel\<close>: the socket it gets has
  the closure of \<^verbatim>\<open>addChannel\<close> as its \<^verbatim>\<open>close\<close> at the time of the call.
\<close>

lemma connect_with_own:
  "\<exists>w'. connect_with m (Own be) ref k ds w = Returned w'
     \<and> calls w' = calls w @ [(Own be, length (socks w),
           \<lparr>s_socket = k, s_channel = Some (randomId ds), s_url = ws_url (sockets w ! k),
            s_close = ChannelClose m False, s_events = []\<rparr>)]
     \<and> s_close (socks w' ! length (socks w)) = ChannelClose m False"
proof -
  let ?w1 = "socket_send k (Open (randomId ds) ref) w"
  let ?sid = "length (socks w)"
  let ?w2 = "?w1\<lparr>socks := socks ?w1 @
                 [\<lparr>s_socket = k, s_channel = None, s_url = ws_url (sockets ?w1 ! k),
                   s_close = BaseClose, s_events = []\<rparr>]\<rparr>"
  have s1: "socks ?w1 = socks w" "calls ?w1 = calls w"
    "ws_url (sockets ?w1 ! k) = ws_url (sockets w ! k)"
    by (simp_all add: socket_send_def upd_sent_ws_url)
  have "?sid < length (socks ?w2)" by (simp add: s1)
  from addChannel_randomId_returns [OF this, of m ds] obtain w3 where
    r: "addChannel m (Some ?sid) (randomId ds) ?w2 = Returned w3" by blast
  from addChannel_state [of m ?sid "randomId ds" ?w2] r
  have so: "socks w3 = socks w @ [\<lparr>s_socket = k, s_channel = Some (randomId ds),
           s_url = ws_url (sockets w ! k), s_close = ChannelClose m False, s_events = []\<rparr>]"
    and ca: "calls w3 = calls w"
    by (auto simp: s1)
  from r so ca show ?thesis
    by (simp add: connect_with_def Let_def s1 is_called_def call_returns_def emit_def)
qed

lemma close_returns: "s_close (socks w ! sid) \<noteq> BaseClose \<Longrightarrow> returned (close sid c r w)"
  by (cases "s_close (socks w ! sid)") (simp_all add: close_def Let_def)

text \<open>
  C10. The base \<^verbatim>\<open>close\<close> throws. A client's constructor that returns gives a
  socket whose \<^verbatim>\<open>close\<close> is the temporary handler of \<^verbatim>\<open>connect\<close>.
  \<^verbatim>\<open>handleConnectMessage\<close> calls a backend of the table after \<^verbatim>\<open>addChannel\<close>: the
  socket has the closure of \<^verbatim>\<open>addChannel\<close> when the backend gets it. In every
  world reached from the empty one by the public operations and the transport's
  events, no logical socket has the base \<^verbatim>\<open>close\<close>, \<^verbatim>\<open>close\<close> returns on each of
  them, and no backend call whatsoever was made with a socket that had the base
  \<^verbatim>\<open>close\<close> at the time of the call. The operations are taken as \<open>run\<close> takes
  them: up to the end of the list, or up to one that writes to a built-in
  object or reads through a socket that has become the prototype of a registry.
\<close>

theorem base_close_unreachable:
  "(s_close (socks w ! sid) = BaseClose \<longrightarrow> close sid c r w = Thrown Error w)
   \<and> (new_MultiplexSocket url p ds w = Inr (s, w1) \<longrightarrow>
        (\<exists>mx. fst (getMuxer (base_url url) p w) = Own mx
           \<and> s_close (socks w1 ! s) = TempClose mx (randomId ds)))
   \<and> (getBackend m b w = Own be \<longrightarrow>
        (\<exists>w'. handleConnectMessage m (Connect ref b) k ds w = Returned w'
           \<and> calls w' = calls w @ [(Own be, length (socks w),
                \<lparr>s_socket = k, s_channel = Some (randomId ds), s_url = ws_url (sockets w ! k),
                 s_close = ChannelClose m False, s_events = []\<rparr>)]
           \<and> s_close (socks w' ! length (socks w)) = ChannelClose m False))
   \<and> (\<forall>j < length (socks (run ops empty_world)).
        s_close (socks (run ops empty_world) ! j) \<noteq> BaseClose
        \<and> returned (close j c r (run ops empty_world)))
   \<and> (\<forall>call \<in> set (calls (run ops empty_world)). s_close (snd (snd call)) \<noteq> BaseClose)"
proof -
  have a: "s_close (socks w ! sid) = BaseClose \<longrightarrow> close sid c r w = Thrown Error w"
    by (simp add: close_def)
  have b: "\<exists>mx. fst (getMuxer (base_url url) p w) = Own mx
           \<and> s_close (socks w1 ! s) = TempClose mx (randomId ds)"
    if "new_MultiplexSocket url p ds w = Inr (s, w1)"
  proof -
    from new_MultiplexSocket_Inr [OF that] obtain mx w0 where
      g: "getMuxer (base_url url) p w = (Own mx, w0)" and s: "s = length (socks w)"
      and w1: "w1 = connect mx (length (socks w)) ds
          (w0\<lparr>socks := socks w0 @
             [\<lparr>s_socket = m_socket (muxers w0 ! mx), s_channel = None, s_url = url,
               s_close = BaseClose, s_events = []\<rparr>]\<rparr>)"
      by blast
    have len: "length (socks w0) = length (socks w)"
      using getMuxer_socks [of "base_url url" p w] g by simp
    have "s_close (socks w1 ! s) = TempClose mx (randomId ds)"
      unfolding w1 s by (rule connect_not_base) (simp add: len)
    with g show ?thesis by simp
  qed
  have c: "\<exists>w'. handleConnectMessage m (Connect ref b) k ds w = Returned w'
           \<and> calls w' = calls w @ [(Own be, length (socks w),
                \<lparr>s_socket = k, s_channel = Some (randomId ds), s_url = ws_url (sockets w ! k),
                 s_close = ChannelClose m False, s_events = []\<rparr>)]
           \<and> s_close (socks w' ! length (socks w)) = ChannelClose m False"
    if "getBackend m b w = Own be"
    using that connect_with_own [of m be ref k ds w] by (simp add: handleConnectMessage_def)
  have d: "s_close (socks (run ops empty_world) ! j) \<noteq> BaseClose
        \<and> returned (close j c r (run ops empty_world))"
    if j: "j < length (socks (run ops empty_world))" for j
  proof -
    have nb: "s_close (socks (run ops empty_world) ! j) \<noteq> BaseClose"
    proof
      assume "s_close (socks (run ops empty_world) ! j) = BaseClose"
      with preserved_run [of empty_world ops] j have "j < length (socks empty_world)"
        by (simp add: preserved_def)
      then show False by (simp add: empty_world_def)
    qed
    with close_returns show ?thesis by simp
  qed
  have e: "s_close (snd (snd call)) \<noteq> BaseClose"
    if "call \<in> set (calls (run ops empty_world))" for call
  proof
    assume "s_close (snd (snd call)) = BaseClose"
    with preserved_run [of empty_world ops] that have "call \<in> set (calls empty_world)"
      by (auto simp: preserved_def)
    then show False by (simp add: empty_world_def)
  qed
  from a b c d e show ?thesis by blast
qed

theorem base_close_unreachable_witness:
  "close 0 None None bare_world = Thrown Error bare_world
   \<and> s_close (socks (run [NewMultiplexSocket ''ws://host/echo'' None [27, 1], SockClose 0 None None]
       empty_world) ! 0) \<noteq> BaseClose
   \<and> returned (close 0 None None
       (run [NewMultiplexSocket ''ws://host/echo'' None [27, 1], SockClose 0 None None] empty_world))
   \<and> s_close (socks client_demo ! 0) = TempClose 0 ''r1''
   \<and> (\<exists>w'. handleConnectMessage 0 (Connect ''r2'' ''ws://host/echo'') 0 [12, 2] server_demo = Returned w'
         \<and> calls w' = calls server_demo @ [(Own (BackendFunction 0), 1,
                \<lparr>s_socket = 0, s_channel = Some ''c2'', s_url = [],
                 s_close = ChannelClose 0 False, s_events = []\<rparr>)]
         \<and> s_close (socks w' ! 1) = ChannelClose 0 False)
   \<and> calls server_demo \<noteq> []
   \<and> s_close (snd (snd (hd (calls server_demo)))) \<noteq> BaseClose"
proof -
  let ?client = "[NewMultiplexSocket ''ws://host/echo'' None [27, 1], SockClose 0 None None]"
  let ?server = "[NewMultiplexerServer [(''echo'', BackendFunction 0)], Connection 0,
          TransportMessage 0 (Parsed (Connect ''r1'' ''ws://host/echo'')) [12, 1]]"
  have l: "0 < length (socks (run ?client empty_world))"
    by code_simp
  have be: "getBackend 0 ''ws://host/echo'' server_demo = Own (BackendFunction 0)"
    unfolding server_demo_eval by code_simp
  have r: "randomId [12, 2] = ''c2''" "randomId [27, 1] = ''r1''" by code_simp+
  have n: "new_MultiplexSocket ''ws://host/echo'' None [27, 1] empty_world = Inr (0, client_demo)"
    unfolding client_demo_def by code_simp
  have g: "fst (getMuxer (base_url ''ws://host/echo'') None empty_world) = Own 0"
    by code_simp
  from base_close_unreachable [where w = server_demo and m = 0 and b = "''ws://host/echo''"
      and be = "BackendFunction 0" and ref = "''r2''" and k = 0 and ds = "[12, 2]"
      and c = None and r = None and ops = ?client]
    l be
  have 1: "\<exists>w'. handleConnectMessage 0 (Connect ''r2'' ''ws://host/echo'') 0 [12, 2] server_demo = Returned w'
         \<and> calls w' = calls server_demo @ [(Own (BackendFunction 0), 1,
                \<lparr>s_socket = 0, s_channel = Some ''c2'', s_url = [],
                 s_close = ChannelClose 0 False, s_events = []\<rparr>)]
         \<and> s_close (socks w' ! 1) = ChannelClose 0 False"
    and 2: "s_close (socks (run ?client empty_world) ! 0) \<noteq> BaseClose"
    and 3: "returned (close 0 None None (run ?client empty_world))"
    by (simp_all add: r server_demo_eval)
  have b: "s_close (socks bare_world ! 0) = BaseClose" by (simp add: bare_world_def)
  from base_close_unreachable [where w = bare_world and sid = 0 and c = None and r = None] b
  have 4: "close 0 None None bare_world = Thrown Error bare_world" by blast
  from base_close_unreachable [where w = empty_world and url = "''ws://host/echo''" and p = None
      and ds = "[27, 1]" and s = 0 and ?w1.0 = client_demo] n
  have "\<exists>mx. fst (getMuxer (base_url ''ws://host/echo'') None empty_world) = Own mx
           \<and> s_close (socks client_demo ! 0) = TempClose mx (randomId [27, 1])"
    by blast
  with g r(2) have 5: "s_close (socks client_demo ! 0) = TempClose 0 ''r1''" by auto
  have 7: "calls server_demo \<noteq> []" by (simp add: server_demo_eval)
  from base_close_unreachable [where ops = ?server]
  have "\<forall>call \<in> set (calls server_demo). s_close (snd (snd call)) \<noteq> BaseClose"
    unfolding server_demo_def by blast
  with 7 have 6: "s_close (snd (snd (hd (calls server_demo)))) \<noteq> BaseClose"
    by simp
  from 1 2 3 4 5 6 7 show ?thesis by blast
qed

section \<open>Closing of the physical connection\<close>

lemma obj_delete_filter: "obj_delete obj k = filter (\<lambda>kv. fst kv \<notin> {k}) obj"
  by (simp add: obj_delete_def)

lemma close_step:
  assumes m: "m < length (muxers w)" and ok: "closable w m sid"
  shows "\<exists>w'. close sid c r w = Returned w'
     \<and> length (socks w') = length (socks w) \<and> length (muxers w') = length (muxers w)
     \<and> channels (muxers w' ! m) = filter (\<lambda>kv. fst kv \<notin> gone w sid) (channels (muxers w ! m))
     \<and> (\<forall>j. j \<noteq> sid \<longrightarrow> socks w' ! j = socks w ! j)
     \<and> s_events (socks w' ! sid) = s_events (socks w ! sid) @
          (if s_close (socks w ! sid) = ChannelClose m False then [CloseEvent c r] else [])
     \<and> closable w' m sid
     \<and> gone w' sid \<subseteq> gone w sid
     \<and> s_close (socks w' ! sid) \<noteq> ChannelClose m False"
proof -
  from ok have sid: "sid < length (socks w)" by (simp add: closable_def)
  show ?thesis
  proof (cases "s_close (socks w ! sid)")
    case BaseClose
    with ok show ?thesis by (simp add: closable_def)
  next
    case (TempClose m' ref)
    with ok have "m' = m" by (simp add: closable_def)
    with TempClose m sid show ?thesis
      by (simp add: close_def set_channels_def gone_def closable_def obj_delete_filter)
  next
    case (ChannelClose m' b)
    with ok have m': "m' = m" by (simp add: closable_def)
    show ?thesis
    proof (cases b)
      case True
      with ChannelClose m' m sid show ?thesis
        by (auto simp: close_def gone_def closable_def)
    next
      case False
      with ChannelClose m' m sid show ?thesis
        by (auto simp: close_def Let_def set_channels_def emit_def socket_send_def gone_def
            closable_def obj_delete_filter)
    qed
  qed
qed


lemma closable_other:
  "closable w m j \<Longrightarrow> length (socks w') = length (socks w) \<Longrightarrow> socks w' ! j = socks w ! j
     \<Longrightarrow> closable w' m j"
  by (simp add: closable_def)

lemma forEach_close_all:
  assumes m: "m < length (muxers w)"
    and ok: "\<forall>v \<in> set vs. \<exists>sid. v = Some sid \<and> closable w m sid"
  shows "\<exists>w1. forEach_close vs c r w = Returned w1
     \<and> length (socks w1) = length (socks w)
     \<and> channels (muxers w1 ! m) =
          filter (\<lambda>kv. \<forall>sid. Some sid \<in> set vs \<longrightarrow> fst kv \<notin> gone w sid) (channels (muxers w ! m))
     \<and> (\<forall>sid. s_events (socks w1 ! sid) = s_events (socks w ! sid) @
          (if Some sid \<in> set vs \<and> s_close (socks w ! sid) = ChannelClose m False
           then [CloseEvent c r] else []))"
  using assms
proof (induction vs arbitrary: w)
  case Nil
  then show ?case by simp
next
  case (Cons v vs)
  from Cons.prems(2) obtain sid where v: "v = Some sid" and cl: "closable w m sid"
    by auto
  from close_step [OF Cons.prems(1) cl, of c r] obtain w' where
    w': "close sid c r w = Returned w'"
    and ls: "length (socks w') = length (socks w)"
    and lm: "length (muxers w') = length (muxers w)"
    and ch: "channels (muxers w' ! m) = filter (\<lambda>kv. fst kv \<notin> gone w sid) (channels (muxers w ! m))"
    and other: "\<And>j. j \<noteq> sid \<Longrightarrow> socks w' ! j = socks w ! j"
    and ev: "s_events (socks w' ! sid) = s_events (socks w ! sid) @
          (if s_close (socks w ! sid) = ChannelClose m False then [CloseEvent c r] else [])"
    and cl': "closable w' m sid"
    and sub: "gone w' sid \<subseteq> gone w sid"
    and nl: "s_close (socks w' ! sid) \<noteq> ChannelClose m False"
    by blast
  have m': "m < length (muxers w')" using lm Cons.prems(1) by simp
  have ok': "\<forall>v \<in> set vs. \<exists>j. v = Some j \<and> closable w' m j"
  proof
    fix u assume u: "u \<in> set vs"
    with Cons.prems(2) obtain j where j: "u = Some j" "closable w m j" by auto
    show "\<exists>j. u = Some j \<and> closable w' m j"
    proof (cases "j = sid")
      case True
      with j cl' show ?thesis by simp
    next
      case False
      with j other [of j] ls show ?thesis by (auto intro: closable_other)
    qed
  qed
  from Cons.IH [OF m' ok'] obtain w1 where
    r: "forEach_close vs c r w' = Returned w1"
    and l1: "length (socks w1) = length (socks w')"
    and ch1: "channels (muxers w1 ! m) =
          filter (\<lambda>kv. \<forall>j. Some j \<in> set vs \<longrightarrow> fst kv \<notin> gone w' j) (channels (muxers w' ! m))"
    and ev1: "\<And>j. s_events (socks w1 ! j) = s_events (socks w' ! j) @
          (if Some j \<in> set vs \<and> s_close (socks w' ! j) = ChannelClose m False
           then [CloseEvent c r] else [])"
    by blast
  have g: "gone w' j = gone w j" if "j \<noteq> sid" for j
    by (simp only: gone_def other [OF that])
  have keys: "(fst kv \<notin> gone w sid \<and> (\<forall>j. Some j \<in> set vs \<longrightarrow> fst kv \<notin> gone w' j))
      = (\<forall>j. Some j \<in> set (v # vs) \<longrightarrow> fst kv \<notin> gone w j)" for kv
  proof
    assume a: "fst kv \<notin> gone w sid \<and> (\<forall>j. Some j \<in> set vs \<longrightarrow> fst kv \<notin> gone w' j)"
    show "\<forall>j. Some j \<in> set (v # vs) \<longrightarrow> fst kv \<notin> gone w j"
    proof (intro allI impI)
      fix j assume "Some j \<in> set (v # vs)"
      with a v g [of j] show "fst kv \<notin> gone w j" by (cases "j = sid") auto
    qed
  next
    assume a: "\<forall>j. Some j \<in> set (v # vs) \<longrightarrow> fst kv \<notin> gone w j"
    with v have 1: "fst kv \<notin> gone w sid" by simp
    have "fst kv \<notin> gone w' j" if "Some j \<in> set vs" for j
    proof (cases "j = sid")
      case True
      with 1 sub show ?thesis by auto
    next
      case False
      with a that g [of j] show ?thesis by simp
    qed
    with 1 show "fst kv \<notin> gone w sid \<and> (\<forall>j. Some j \<in> set vs \<longrightarrow> fst kv \<notin> gone w' j)"
      by simp
  qed
  have chans: "channels (muxers w1 ! m) =
      filter (\<lambda>kv. \<forall>j. Some j \<in> set (v # vs) \<longrightarrow> fst kv \<notin> gone w j) (channels (muxers w ! m))"
    unfolding ch1 ch filter_filter by (rule filter_cong [OF refl]) (rule keys)
  have events: "s_events (socks w1 ! j) = s_events (socks w ! j) @
          (if Some j \<in> set (v # vs) \<and> s_close (socks w ! j) = ChannelClose m False
           then [CloseEvent c r] else [])" for j
  proof (cases "j = sid")
    case True
    with ev1 [of sid] ev nl v show ?thesis by simp
  next
    case False
    with ev1 [of j] other [of j] v show ?thesis by simp
  qed
  from r w' v l1 ls chans events show ?case by simp
qed


lemma set_obj_values: "set (obj_values obj) = snd ` set obj"
  by (auto simp: obj_values_def)

text \<open>
  What holds of the closing of the physical connection: while every registry
  entry is live (\<open>live_entry\<close>), \<^verbatim>\<open>onclose\<close> returns and the registry is empty; of
  the sockets that the registry held, one registered by \<^verbatim>\<open>addChannel\<close> has got
  one more event, the close event with the transport's code and reason, and one
  pending under its temporary ref has got none. A socket that the registry does
  not hold (\<open>collision_demo\<close> has one) is not visited.
\<close>

lemma transport_close_closes_all:
  assumes m: "m < length (muxers w)"
    and live: "\<forall>kv \<in> set (channels (muxers w ! m)). live_entry w m kv"
  shows "\<exists>w1. onclose m code reason w = Returned w1
     \<and> channels (muxers w1 ! m) = []
     \<and> (\<forall>kv \<in> set (channels (muxers w ! m)). \<forall>sid. snd kv = Some sid \<longrightarrow>
           s_events (socks w1 ! sid) = s_events (socks w ! sid) @
             (if s_close (socks w ! sid) = ChannelClose m False
              then [CloseEvent code reason] else []))"
proof -
  let ?vs = "obj_values (channels (muxers w ! m))"
  have ok: "\<forall>v \<in> set ?vs. \<exists>sid. v = Some sid \<and> closable w m sid"
  proof
    fix v assume "v \<in> set ?vs"
    then obtain kv where kv: "kv \<in> set (channels (muxers w ! m))" "v = snd kv"
      by (auto simp: set_obj_values)
    with live have "live_entry w m kv" by simp
    with kv show "\<exists>sid. v = Some sid \<and> closable w m sid"
      by (cases "snd kv") (auto simp: live_entry_def closable_def)
  qed
  from forEach_close_all [OF m ok, of code reason] obtain w1 where
    r: "forEach_close ?vs code reason w = Returned w1"
    and ch: "channels (muxers w1 ! m) =
          filter (\<lambda>kv. \<forall>sid. Some sid \<in> set ?vs \<longrightarrow> fst kv \<notin> gone w sid) (channels (muxers w ! m))"
    and ev: "\<And>sid. s_events (socks w1 ! sid) = s_events (socks w ! sid) @
          (if Some sid \<in> set ?vs \<and> s_close (socks w ! sid) = ChannelClose m False
           then [CloseEvent code reason] else [])"
    by blast
  have dead: "\<exists>sid. Some sid \<in> set ?vs \<and> fst kv \<in> gone w sid"
    if kv: "kv \<in> set (channels (muxers w ! m))" for kv
  proof -
    from live kv have l: "live_entry w m kv" by simp
    then obtain sid where sid: "snd kv = Some sid" by (cases "snd kv") (auto simp: live_entry_def)
    from kv sid have "Some sid \<in> set ?vs" by (force simp: set_obj_values)
    moreover from l sid have "fst kv \<in> gone w sid"
      by (auto simp: live_entry_def gone_def key_of_def)
    ultimately show ?thesis by blast
  qed
  have empty: "channels (muxers w1 ! m) = []"
    unfolding ch using dead by (auto simp: filter_empty_conv)
  have events: "s_events (socks w1 ! sid) = s_events (socks w ! sid) @
             (if s_close (socks w ! sid) = ChannelClose m False
              then [CloseEvent code reason] else [])"
    if "kv \<in> set (channels (muxers w ! m))" "snd kv = Some sid" for kv sid
  proof -
    from that have "Some sid \<in> set ?vs" by (force simp: set_obj_values)
    with ev [of sid] show ?thesis by simp
  qed
  from r empty events show ?thesis by (auto simp: onclose_def)
qed

text \<open>
  The three sockets of \<open>three_demo\<close> are visited in the order of \<^verbatim>\<open>Object.values\<close>
  ("42" first); each gets the close event, and the registry is empty.
\<close>

lemma three_streams_closed:
  "returned (onclose 0 (Some 1006) (Some ''lost'') three_demo)
   \<and> channels (muxers (state_of (onclose 0 (Some 1006) (Some ''lost'') three_demo)) ! 0) = []
   \<and> map s_events (socks (state_of (onclose 0 (Some 1006) (Some ''lost'') three_demo)))
       = [[OpenEvent, CloseEvent (Some 1006) (Some ''lost'')],
          [OpenEvent, CloseEvent (Some 1006) (Some ''lost'')],
          [OpenEvent, CloseEvent (Some 1006) (Some ''lost'')]]"
  unfolding three_demo_def by code_simp

text \<open>
  C5. \<^verbatim>\<open>wireDefaultEvents\<close> is documented to notify all logical connections when
  the physical connection fails, and its \<^verbatim>\<open>onerror\<close> handler does deliver the
  event to every registered socket. Its \<^verbatim>\<open>onclose\<close> handler calls \<^verbatim>\<open>sock.close\<close>
  instead, and two registered streams are missed.

  A socket registered under its temporary ref, waiting for the open frame, has
  the \<^verbatim>\<open>close\<close> of \<^verbatim>\<open>connect\<close>, which deletes the entry and emits nothing: when
  the physical connection of \<open>client_demo\<close> closes, its socket is removed from
  the registry and gets no close event, whereas a transport error does reach it.

  In \<open>early_close_demo\<close> the registry holds \<^verbatim>\<open>undefined\<close> under "c1" (stored by
  \<^verbatim>\<open>handleOpenMessage\<close> for a ref that was closed before its open frame came) and
  the open socket 1 under "c2". \<^verbatim>\<open>onclose\<close> throws a TypeError at the first
  entry: socket 1 gets no close event and both entries stay in the registry.
\<close>

theorem transport_close_misses_streams:
  "channels (muxers client_demo ! 0) = [(''r1'', Some 0)]
   \<and> step_outcome (TransportClose 0 (Some 1006) (Some ''lost'')) client_demo
       = Returned (step (TransportClose 0 (Some 1006) (Some ''lost'')) client_demo)
   \<and> channels (muxers (step (TransportClose 0 (Some 1006) (Some ''lost'')) client_demo) ! 0) = []
   \<and> s_events (socks (step (TransportClose 0 (Some 1006) (Some ''lost'')) client_demo) ! 0) = []
   \<and> s_events (socks (step (TransportError 0) client_demo) ! 0) = [ErrorEvent]
   \<and> channels (muxers early_close_demo ! 0) = [(''c1'', None), (''c2'', Some 1)]
   \<and> s_channel (socks early_close_demo ! 1) = Some ''c2''
   \<and> s_close (socks early_close_demo ! 1) = ChannelClose 0 False
   \<and> s_events (socks early_close_demo ! 1) = [OpenEvent]
   \<and> step_outcome (TransportClose 0 (Some 1006) None) early_close_demo
       = Thrown TypeError (set_readyState 0 CLOSED early_close_demo)
   \<and> s_events (socks (step (TransportClose 0 (Some 1006) None) early_close_demo) ! 1)
       = [OpenEvent]
   \<and> channels (muxers (step (TransportClose 0 (Some 1006) None) early_close_demo) ! 0)
       = [(''c1'', None), (''c2'', Some 1)]"
  unfolding client_demo_def early_close_demo_def by code_simp

end
